theory Spec2Isabelle
  imports Main "HOL-Library.Sublist"
begin

section \<open>Paths\<close>

text \<open>
  A \<^verbatim>\<open>pathlib.Path\<close> under POSIX rules: an anchor (absolute or relative) and the list
  of name components. \<^verbatim>\<open>Path('/a/b')\<close> is \<open>Path True [''a'', ''b'']\<close>,
  \<^verbatim>\<open>Path('a/b')\<close> is \<open>Path False [''a'', ''b'']\<close>, \<^verbatim>\<open>Path('.')\<close> is
  \<open>Path False []\<close> and \<^verbatim>\<open>Path('/')\<close> is \<open>Path True []\<close>. Two paths are equal when
  anchor and components are equal, as \<^verbatim>\<open>PurePosixPath.__eq__\<close> compares.
\<close>

datatype path = Path (absolute: bool) (comps: "string list")

text \<open>\<^verbatim>\<open>p.name\<close>: the final component, the empty string when there is none.\<close>

definition name :: "path \<Rightarrow> string" where
  "name p = (if comps p = [] then [] else last (comps p))"

text \<open>\<^verbatim>\<open>p.parent\<close>: the path without its final component; the anchor is its own parent.\<close>

definition parent :: "path \<Rightarrow> path" where
  "parent p = Path (absolute p) (butlast (comps p))"

text \<open>\<^verbatim>\<open>p.parents\<close>: the logical ancestors, nearest first, down to the anchor.\<close>

definition parents :: "path \<Rightarrow> path list" where
  "parents p = map (\<lambda>k. Path (absolute p) (take k (comps p))) (rev [0..<length (comps p)])"

text \<open>\<^verbatim>\<open>len(p.parts)\<close>: the root of an absolute path counts as one part.\<close>

definition parts_len :: "path \<Rightarrow> nat" where
  "parts_len p = (if absolute p then 1 else 0) + length (comps p)"

text \<open>\<^verbatim>\<open>p / s\<close> for a string \<open>s\<close> that is one file name (no separator); joining the
  empty string leaves the path as it is.\<close>

definition join :: "path \<Rightarrow> string \<Rightarrow> path" where
  "join p s = (if s = [] then p else Path (absolute p) (comps p @ [s]))"

section \<open>Characters and numerals\<close>

text \<open>
  Text is a list of 8-bit characters, read as the code points below 256. On these,
  Python's \<^verbatim>\<open>\d\<close> matches the ten ASCII digits and \<^verbatim>\<open>\s\<close> matches the
  code points 9 to 13, 28 to 32, 133 and 160.
\<close>

definition NL :: char where
  "NL = CHR 0x0A"

definition CR :: char where
  "CR = CHR 0x0D"

definition BS :: char where
  "BS = CHR 0x5C"

definition is_digit :: "char \<Rightarrow> bool" where
  "is_digit c = (c \<in> set ''0123456789'')"

definition is_octdigit :: "char \<Rightarrow> bool" where
  "is_octdigit c = (c \<in> set ''01234567'')"

definition is_ascii_letter :: "char \<Rightarrow> bool" where
  "is_ascii_letter c =
     (c \<in> set ''abcdefghijklmnopqrstuvwxyzABCDEFGHIJKLMNOPQRSTUVWXYZ'')"

definition is_space :: "char \<Rightarrow> bool" where
  "is_space c = ((of_char c :: nat) \<in> set [9, 10, 11, 12, 13, 28, 29, 30, 31, 32, 133, 160])"

definition digit_val :: "char \<Rightarrow> nat" where
  "digit_val c = of_char c - 48"

text \<open>\<^verbatim>\<open>int(s)\<close> for a string of decimal digits.\<close>

definition int_of_digits :: "string \<Rightarrow> nat" where
  "int_of_digits s = foldl (\<lambda>a c. 10 * a + digit_val c) 0 s"

definition digit_char :: "nat \<Rightarrow> char" where
  "digit_char d = char_of (48 + d)"

text \<open>\<^verbatim>\<open>str(n)\<close> for a natural number: its decimal digits, most significant first.\<close>

fun str_nat :: "nat \<Rightarrow> string" where
  "str_nat n = (if n < 10 then [digit_char n] else str_nat (n div 10) @ [digit_char (n mod 10)])"

declare str_nat.simps [simp del]

section \<open>The file system\<close>

text \<open>
  The state the program reads and changes: the entries below the directories it is given.
  A file has its content and three facts about it (whether it can be read, whether it can
  be written, whether its content decodes as UTF-8); a directory has two: whether entries
  can be created and removed in it, and what listing it does (it succeeds, it is refused
  with \<^verbatim>\<open>PermissionError\<close>, or it fails with another \<^verbatim>\<open>OSError\<close> such as an
  I/O error). The state is an association list from paths to nodes, in the order a
  directory walk comes to the entries; the first binding of a path is the one that counts.
\<close>

datatype listing = Listable | Denied | Broken

datatype node =
    File (file_data: string) (readable: bool) (file_writable: bool) (decodable: bool)
  | Dir (dir_writable: bool) (dir_listing: listing)

type_synonym fs = "(path \<times> node) list"

text \<open>The exceptions of the program: the two that its handlers catch, the
  \<^verbatim>\<open>ValueError\<close> of \<^verbatim>\<open>relative_to\<close>, and the error of the \<^verbatim>\<open>re\<close> module
  (\<^verbatim>\<open>re.error\<close>, or \<^verbatim>\<open>IndexError\<close> for an unknown group name) raised when a
  replacement template is compiled, which no handler of the program catches.\<close>

datatype py_exception = OSError | UnicodeDecodeError | ValueError | ReError

definition exists :: "fs \<Rightarrow> path \<Rightarrow> bool" where
  "exists fs p = (map_of fs p \<noteq> None)"

definition is_file :: "fs \<Rightarrow> path \<Rightarrow> bool" where
  "is_file fs p = (case map_of fs p of Some (File _ _ _ _) \<Rightarrow> True | _ \<Rightarrow> False)"

definition is_dir :: "fs \<Rightarrow> path \<Rightarrow> bool" where
  "is_dir fs p = (case map_of fs p of Some (Dir _ _) \<Rightarrow> True | _ \<Rightarrow> False)"

definition writable_dir :: "fs \<Rightarrow> path \<Rightarrow> bool" where
  "writable_dir fs p = (case map_of fs p of Some (Dir w _) \<Rightarrow> w | _ \<Rightarrow> False)"

definition listing_of :: "fs \<Rightarrow> path \<Rightarrow> listing option" where
  "listing_of fs p = (case map_of fs p of Some (Dir _ l) \<Rightarrow> Some l | _ \<Rightarrow> None)"

text \<open>Reading the bytes of a file (\<^verbatim>\<open>open(p, "rb")\<close>).\<close>

definition read_bytes :: "fs \<Rightarrow> path \<Rightarrow> py_exception + string" where
  "read_bytes fs p =
     (case map_of fs p of
        Some (File c r _ _) \<Rightarrow> if r then Inr c else Inl OSError
      | _ \<Rightarrow> Inl OSError)"

text \<open>Reading in text mode translates line ends: a carriage return, with the newline
  that may follow it, is read as one newline.\<close>

fun universal_newlines :: "string \<Rightarrow> string" where
  "universal_newlines [] = []"
| "universal_newlines [c] = [if c = CR then NL else c]"
| "universal_newlines (c # d # cs) =
     (if c = CR \<and> d = NL then NL # universal_newlines cs
      else if c = CR then NL # universal_newlines (d # cs)
      else c # universal_newlines (d # cs))"

text \<open>\<^verbatim>\<open>p.read_text(encoding='utf-8')\<close>.\<close>

definition read_text :: "fs \<Rightarrow> path \<Rightarrow> py_exception + string" where
  "read_text fs p =
     (case map_of fs p of
        Some (File c r _ d) \<Rightarrow>
          if \<not> r then Inl OSError else if \<not> d then Inl UnicodeDecodeError
          else Inr (universal_newlines c)
      | _ \<Rightarrow> Inl OSError)"

text \<open>Replacing a binding where it stands, or adding it at the end.\<close>

fun put :: "path \<Rightarrow> node \<Rightarrow> fs \<Rightarrow> fs" where
  "put p n [] = [(p, n)]"
| "put p n ((q, m) # rest) = (if q = p then (p, n) # rest else (q, m) # put p n rest)"

definition remove :: "path \<Rightarrow> fs \<Rightarrow> fs" where
  "remove p fs = filter (\<lambda>(q, _). q \<noteq> p) fs"

text \<open>\<^verbatim>\<open>p.write_text(c, encoding='utf-8')\<close>: an existing file must be writable, a new
  file needs a directory in which entries can be created.\<close>

definition write_text :: "fs \<Rightarrow> path \<Rightarrow> string \<Rightarrow> py_exception + fs" where
  "write_text fs p c =
     (case map_of fs p of
        Some (File _ r w _) \<Rightarrow> if w then Inr (put p (File c r w True) fs) else Inl OSError
      | Some (Dir _ _) \<Rightarrow> Inl OSError
      | None \<Rightarrow>
          if writable_dir fs (parent p) then Inr (put p (File c True True True) fs)
          else Inl OSError)"

text \<open>
  \<^verbatim>\<open>p.mkdir(parents=True, exist_ok=True)\<close>: nothing to do for a directory that exists,
  an error for a file in the way, and otherwise the parent is made first.
\<close>

function mkdir_parents :: "fs \<Rightarrow> path \<Rightarrow> py_exception + fs" where
  "mkdir_parents fs p =
     (case map_of fs p of
        Some (Dir _ _) \<Rightarrow> Inr fs
      | Some (File _ _ _ _) \<Rightarrow> Inl OSError
      | None \<Rightarrow>
          if comps p = [] then Inl OSError
          else (case mkdir_parents fs (parent p) of
                  Inl e \<Rightarrow> Inl e
                | Inr fs1 \<Rightarrow>
                    if writable_dir fs1 (parent p) then Inr (put p (Dir True Listable) fs1)
                    else Inl OSError))"
  by pat_completeness auto
termination
  by (relation "measure (\<lambda>(fs, p). length (comps p))") (auto simp: parent_def)

declare mkdir_parents.simps [simp del]

text \<open>\<open>under d q\<close>: the entry \<open>q\<close> lies below the directory \<open>d\<close>, at any depth.\<close>

definition under :: "path \<Rightarrow> path \<Rightarrow> bool" where
  "under d q = (absolute q = absolute d \<and> strict_prefix (comps d) (comps q))"

text \<open>The path \<open>q\<close> below \<open>src\<close> as it is called once \<open>src\<close> is \<open>tgt\<close>.\<close>

definition rebase :: "path \<Rightarrow> path \<Rightarrow> path \<Rightarrow> path" where
  "rebase src tgt q = Path (absolute tgt) (comps tgt @ drop (length (comps src)) (comps q))"

text \<open>
  \<^verbatim>\<open>src.rename(tgt)\<close> (\<^verbatim>\<open>os.rename\<close> under POSIX): both parent directories must allow
  changes; a file replaces a file that is there; a directory moves with everything below
  it, and only onto nothing or an empty directory, never into itself.
\<close>

definition rename :: "fs \<Rightarrow> path \<Rightarrow> path \<Rightarrow> py_exception + fs" where
  "rename fs src tgt =
     (case map_of fs src of
        None \<Rightarrow> Inl OSError
      | Some n \<Rightarrow>
          if \<not> writable_dir fs (parent src) \<or> \<not> writable_dir fs (parent tgt) then Inl OSError
          else if src = tgt then Inr fs
          else (case n of
                  File _ _ _ _ \<Rightarrow>
                    (if is_dir fs tgt then Inl OSError
                     else Inr (put tgt n (remove tgt (remove src fs))))
                | Dir _ _ \<Rightarrow>
                    (if is_file fs tgt \<or> under src tgt \<or> (\<exists>(q, _) \<in> set fs. under tgt q)
                     then Inl OSError
                     else Inr (map (\<lambda>(q, m). if q = src then (tgt, m)
                                             else if under src q then (rebase src tgt q, m)
                                             else (q, m))
                               (remove tgt fs)))))"

section \<open>Notes: dates, links and link rewriting (markdown\_parser.py)\<close>

subsection \<open>The year of a note\<close>

text \<open>
  \<open>extract_year_from_filename\<close>:
  \<^verbatim>\<open>re.match(r'^(\d{4})(\d{2})(\d{2})_', file_path.name)\<close> and the check of the three
  numbers.
\<close>

definition extract_year_from_filename :: "path \<Rightarrow> nat option" where
  "extract_year_from_filename file_path =
     (let filename = name file_path
      in if 9 \<le> length filename \<and> list_all is_digit (take 8 filename) \<and>
            filename ! 8 = CHR ''_''
         then
           (let year = int_of_digits (take 4 filename);
                month = int_of_digits (take 2 (drop 4 filename));
                day = int_of_digits (take 2 (drop 6 filename))
            in if 1900 \<le> year \<and> year \<le> 2100 \<and> 1 \<le> month \<and> month \<le> 12 \<and>
                  1 \<le> day \<and> day \<le> 31
               then Some year else None)
         else None)"

text \<open>
  The lazy group of \<^verbatim>\<open>(.*?)\n---\<close> under \<^verbatim>\<open>re.DOTALL\<close>: the shortest text that
  is followed by a newline and three dashes.
\<close>

fun find_close :: "string \<Rightarrow> string option" where
  "find_close [] = None"
| "find_close (c # cs) =
     (if take 4 (c # cs) = [NL, CHR ''-'', CHR ''-'', CHR ''-''] then Some []
      else map_option ((#) c) (find_close cs))"

text \<open>
  \<^verbatim>\<open>\s*\n(.*?)\n---\<close> with \<open>k\<close> characters given to the greedy \<^verbatim>\<open>\s*\<close>: the
  character after them must be a newline, and the group starts behind it.
\<close>

definition frontmatter_after :: "string \<Rightarrow> nat \<Rightarrow> string option" where
  "frontmatter_after rest k =
     (if k < length rest \<and> rest ! k = NL then find_close (drop (Suc k) rest) else None)"

text \<open>Backtracking: \<^verbatim>\<open>\s*\<close> tries its longest match first and gives characters back
  one at a time.\<close>

fun frontmatter_backtrack :: "string \<Rightarrow> nat \<Rightarrow> string option" where
  "frontmatter_backtrack rest 0 = frontmatter_after rest 0"
| "frontmatter_backtrack rest (Suc k) =
     (case frontmatter_after rest (Suc k) of
        Some g \<Rightarrow> Some g
      | None \<Rightarrow> frontmatter_backtrack rest k)"

text \<open>\<^verbatim>\<open>re.match(r'^---\s*\n(.*?)\n---', content, re.DOTALL)\<close>, group 1.\<close>

definition frontmatter_match :: "string \<Rightarrow> string option" where
  "frontmatter_match content =
     (if take 3 content = ''---''
      then frontmatter_backtrack (drop 3 content) (length (takeWhile is_space (drop 3 content)))
      else None)"

text \<open>
  \<^verbatim>\<open>Created at:\s*(\d{4})-\d{2}-\d{2}\<close> at the start of \<open>s\<close>. The digits that must
  follow \<^verbatim>\<open>\s*\<close> are no white space, so only its longest match can succeed.
\<close>

definition created_at :: "string \<Rightarrow> nat option" where
  "created_at s =
     (if take 11 s = ''Created at:''
      then
        (let r = dropWhile is_space (drop 11 s)
         in if 10 \<le> length r \<and> list_all is_digit (take 4 r) \<and> r ! 4 = CHR ''-'' \<and>
               list_all is_digit (take 2 (drop 5 r)) \<and> r ! 7 = CHR ''-'' \<and>
               list_all is_digit (take 2 (drop 8 r))
            then Some (int_of_digits (take 4 r)) else None)
      else None)"

text \<open>
  \<^verbatim>\<open>re.search\<close> of that pattern behind \<^verbatim>\<open>^\<close> under \<^verbatim>\<open>re.MULTILINE\<close>: the first
  position at the start of the text or behind a newline where it matches; \<open>bol\<close> says
  whether the current position is one.
\<close>

fun created_search :: "bool \<Rightarrow> string \<Rightarrow> nat option" where
  "created_search bol [] = None"
| "created_search bol (c # cs) =
     (case (if bol then created_at (c # cs) else None) of
        Some y \<Rightarrow> Some y
      | None \<Rightarrow> created_search (c = NL) cs)"

text \<open>
  \<open>extract_year_from_frontmatter\<close>: a note that cannot be read or decoded has no
  year; otherwise the field of the front matter counts, and the file name where there is
  none.
\<close>

definition extract_year_from_frontmatter :: "fs \<Rightarrow> path \<Rightarrow> nat option" where
  "extract_year_from_frontmatter fs file_path =
     (case read_text fs file_path of
        Inl e \<Rightarrow> None
      | Inr content \<Rightarrow>
          (case frontmatter_match content of
             Some frontmatter \<Rightarrow>
               (case created_search True frontmatter of
                  Some year \<Rightarrow> Some year
                | None \<Rightarrow> extract_year_from_filename file_path)
           | None \<Rightarrow> extract_year_from_filename file_path))"

subsection \<open>The links of a note\<close>

text \<open>
  \<^verbatim>\<open>!?\[\[(_resources/[^\]|]+)\<close> at the start of \<open>s\<close>: the group and the number of
  characters matched. When \<open>s\<close> starts with an exclamation mark the optional
  \<^verbatim>\<open>!?\<close> has to take it, since a bracket must follow.
\<close>

definition link_at :: "string \<Rightarrow> (string \<times> nat) option" where
  "link_at s =
     (let bang = (if take 1 s = ''!'' then 1 else 0);
          s' = drop bang s
      in if take 13 s' = ''[[_resources/''
         then (let run = takeWhile (\<lambda>c. c \<noteq> CHR '']'' \<and> c \<noteq> CHR ''|'') (drop 13 s')
               in if run = [] then None
                  else Some (''_resources/'' @ run, bang + 13 + length run))
         else None)"

text \<open>\<^verbatim>\<open>re.findall\<close>: the groups of the matches from left to right, each search
  starting where the match before it ended.\<close>

fun findall_links :: "string \<Rightarrow> string list" where
  "findall_links [] = []"
| "findall_links (c # cs) =
     (case link_at (c # cs) of
        Some (g, n) \<Rightarrow> g # findall_links (drop (n - 1) cs)
      | None \<Rightarrow> findall_links cs)"

definition extract_resource_links :: "fs \<Rightarrow> path \<Rightarrow> string list" where
  "extract_resource_links fs file_path =
     (case read_text fs file_path of
        Inr content \<Rightarrow> findall_links content
      | Inl e \<Rightarrow> [])"

subsection \<open>Replacement templates\<close>

text \<open>
  \<^verbatim>\<open>re.sub\<close> compiles a replacement string that holds a backslash before it looks for
  a match. A template is a list of literal characters and group references; the patterns
  of this program have two groups, none of them named.
\<close>

datatype titem = Lit char | Grp nat

definition escapes :: "char \<Rightarrow> char option" where
  "escapes e =
     (if e = CHR ''a'' then Some (CHR 0x07) else if e = CHR ''b'' then Some (CHR 0x08)
      else if e = CHR ''f'' then Some (CHR 0x0C) else if e = CHR ''n'' then Some (CHR 0x0A)
      else if e = CHR ''r'' then Some (CHR 0x0D) else if e = CHR ''t'' then Some (CHR 0x09)
      else if e = CHR ''v'' then Some (CHR 0x0B) else if e = BS then Some BS
      else None)"

text \<open>
  The escape that starts with a backslash and the character \<open>e\<close>, with \<open>rest\<close> behind
  it: the items it stands for and how many characters of \<open>rest\<close> belong to it.
  A group name behind \<^verbatim>\<open>\g\<close> is read as Python 3.12 reads it: decimal digits only.
\<close>

definition escape_at :: "char \<Rightarrow> string \<Rightarrow> py_exception + (titem list \<times> nat)" where
  "escape_at e rest =
     (if e = CHR ''g'' then
        (if take 1 rest \<noteq> ''<'' then Inl ReError
         else (let nm = takeWhile (\<lambda>c. c \<noteq> CHR ''>'' \<and> c \<noteq> BS) (drop 1 rest)
               in if take 1 (drop (1 + length nm) rest) \<noteq> ''>'' \<or> nm = [] \<or>
                     \<not> list_all is_digit nm \<or> 2 < int_of_digits nm
                  then Inl ReError
                  else Inr ([Grp (int_of_digits nm)], length nm + 2)))
      else if e = CHR ''0'' then
        (let ds = takeWhile is_octdigit (take 2 rest)
         in Inr ([Lit (char_of (foldl (\<lambda>a c. 8 * a + digit_val c) 0 ds))], length ds))
      else if is_digit e then
        (if rest \<noteq> [] \<and> is_digit (hd rest) then
           (if is_octdigit e \<and> is_octdigit (hd rest) \<and> 2 \<le> length rest \<and> is_octdigit (rest ! 1)
            then (let v = 64 * digit_val e + 8 * digit_val (hd rest) + digit_val (rest ! 1)
                  in if 255 < v then Inl ReError else Inr ([Lit (char_of v)], 2))
            else Inl ReError)
         else if 2 < digit_val e then Inl ReError
         else Inr ([Grp (digit_val e)], 0))
      else (case escapes e of
              Some c \<Rightarrow> Inr ([Lit c], 0)
            | None \<Rightarrow> if is_ascii_letter e then Inl ReError else Inr ([Lit BS, Lit e], 0)))"

fun parse_template :: "string \<Rightarrow> py_exception + titem list" where
  "parse_template [] = Inr []"
| "parse_template [c] = (if c = BS then Inl ReError else Inr [Lit c])"
| "parse_template (c # e # rest) =
     (if c \<noteq> BS then map_sum id ((#) (Lit c)) (parse_template (e # rest))
      else (case escape_at e rest of
              Inl x \<Rightarrow> Inl x
            | Inr (items, k) \<Rightarrow> map_sum id ((@) items) (parse_template (drop k rest))))"

text \<open>The text a template stands for at a match with the groups \<open>g1\<close> and \<open>g2\<close>;
  group 0 is the whole match.\<close>

fun expand_item :: "string \<Rightarrow> string \<Rightarrow> string \<Rightarrow> titem \<Rightarrow> string" where
  "expand_item g0 g1 g2 (Lit c) = [c]"
| "expand_item g0 g1 g2 (Grp i) = (if i = 0 then g0 else if i = 1 then g1 else g2)"

definition expand :: "titem list \<Rightarrow> string \<Rightarrow> string \<Rightarrow> string \<Rightarrow> string" where
  "expand items g0 g1 g2 = concat (map (expand_item g0 g1 g2) items)"

subsection \<open>Rewriting a link after a rename\<close>

text \<open>
  \<^verbatim>\<open>(\|[^\]]+\]\]|\]\])\<close> at the start of \<open>s\<close>: the group and its length. Behind the
  longest run of \<^verbatim>\<open>[^\]]\<close> stands a closing bracket or nothing, so a shorter run
  cannot be followed by one.
\<close>

definition link_tail :: "string \<Rightarrow> (string \<times> nat) option" where
  "link_tail s =
     (if take 1 s = ''|'' then
        (let run = takeWhile (\<lambda>c. c \<noteq> CHR '']'') (drop 1 s)
         in if run \<noteq> [] \<and> take 2 (drop (1 + length run) s) = '']]''
            then Some (''|'' @ run @ '']]'', length run + 3) else None)
      else if take 2 s = '']]'' then Some ('']]'', 2)
      else None)"

text \<open>\<^verbatim>\<open>(!\[\[_resources/)\<close>, the escaped old name and the tail at the start of \<open>s\<close>:
  the two groups and the length of the match.\<close>

definition old_link_at :: "string \<Rightarrow> string \<Rightarrow> (string \<times> string \<times> nat) option" where
  "old_link_at old_name s =
     (if take (14 + length old_name) s = ''![[_resources/'' @ old_name
      then (case link_tail (drop (14 + length old_name) s) of
              Some (g2, n) \<Rightarrow> Some (''![[_resources/'', g2, 14 + length old_name + n)
            | None \<Rightarrow> None)
      else None)"

text \<open>\<^verbatim>\<open>re.sub\<close> with a compiled template: every match, from left to right, gives way
  to the expanded template.\<close>

fun sub_old_links :: "string \<Rightarrow> titem list \<Rightarrow> string \<Rightarrow> string" where
  "sub_old_links old_name items [] = []"
| "sub_old_links old_name items (c # cs) =
     (case old_link_at old_name (c # cs) of
        Some (g1, g2, n) \<Rightarrow>
          expand items (take n (c # cs)) g1 g2 @ sub_old_links old_name items (drop (n - 1) cs)
      | None \<Rightarrow> c # sub_old_links old_name items cs)"

definition rewrite_old_links :: "string \<Rightarrow> string \<Rightarrow> string \<Rightarrow> py_exception + string" where
  "rewrite_old_links old_name new_name content =
     (case parse_template ([BS, CHR ''1''] @ new_name @ [BS, CHR ''2'']) of
        Inl e \<Rightarrow> Inl e
      | Inr items \<Rightarrow> Inr (sub_old_links old_name items content))"

text \<open>
  \<open>update_resource_link\<close>: the handler catches \<^verbatim>\<open>OSError\<close> and
  \<^verbatim>\<open>UnicodeDecodeError\<close> and returns \<^verbatim>\<open>False\<close>; the error of the template is not
  caught. The result is the exception that leaves the function, or the returned flag
  and the file system.
\<close>

definition update_resource_link ::
  "fs \<Rightarrow> path \<Rightarrow> string \<Rightarrow> string \<Rightarrow> py_exception + (bool \<times> fs)" where
  "update_resource_link fs md_file old_name new_name =
     (case read_text fs md_file of
        Inl e \<Rightarrow> Inr (False, fs)
      | Inr content \<Rightarrow>
          (case rewrite_old_links old_name new_name content of
             Inl e \<Rightarrow> Inl e
           | Inr new_content \<Rightarrow>
               (case write_text fs md_file new_content of
                  Inl e \<Rightarrow> Inr (False, fs)
                | Inr fs' \<Rightarrow> Inr (True, fs'))))"

subsection \<open>What the patterns stand for\<close>

text \<open>
  The interface of the notes in words, for comparison with the matchers above. The
  closing line of a front-matter block: a newline and three dashes.
\<close>

definition dashes :: string where
  "dashes = [NL, CHR ''-'', CHR ''-'', CHR ''-'']"

text \<open>A text behind three dashes, white space and a newline, up to a closing line.\<close>

definition front_matter_block :: "string \<Rightarrow> string \<Rightarrow> bool" where
  "front_matter_block content fm =
     (\<exists>ws rest. content = ''---'' @ ws @ [NL] @ fm @ dashes @ rest \<and> list_all is_space ws)"

text \<open>A text that starts with the field \<^verbatim>\<open>Created at: YYYY-MM-DD\<close> of the year
  \<open>y\<close>.\<close>

definition created_field :: "string \<Rightarrow> nat \<Rightarrow> bool" where
  "created_field s y =
     (\<exists>sp yyyy mm dd tail.
        s = ''Created at:'' @ sp @ yyyy @ ''-'' @ mm @ ''-'' @ dd @ tail \<and>
        list_all is_space sp \<and>
        length yyyy = 4 \<and> list_all is_digit yyyy \<and>
        length mm = 2 \<and> list_all is_digit mm \<and>
        length dd = 2 \<and> list_all is_digit dd \<and>
        y = int_of_digits yyyy)"

text \<open>A front matter with such a field at the start of one of its lines.\<close>

definition has_created_field :: "string \<Rightarrow> nat \<Rightarrow> bool" where
  "has_created_field fm y =
     (\<exists>before s. fm = before @ s \<and> (before = [] \<or> last before = NL) \<and> created_field s y)"

text \<open>A file name that starts with eight digits and an underscore, read as year,
  month and day.\<close>

definition dated_filename :: "string \<Rightarrow> nat \<Rightarrow> nat \<Rightarrow> nat \<Rightarrow> bool" where
  "dated_filename filename y m d =
     (\<exists>yyyy mm dd tail.
        filename = yyyy @ mm @ dd @ ''_'' @ tail \<and>
        length yyyy = 4 \<and> list_all is_digit yyyy \<and>
        length mm = 2 \<and> list_all is_digit mm \<and>
        length dd = 2 \<and> list_all is_digit dd \<and>
        y = int_of_digits yyyy \<and> m = int_of_digits mm \<and> d = int_of_digits dd)"

section \<open>Content identity (utils/file\_hasher.py)\<close>

text \<open>
  \<open>compute_hash\<close>: the digest of the bytes of a file, \<^verbatim>\<open>None\<close> when they cannot be
  read. The digest function of \<^verbatim>\<open>hashlib\<close> is the parameter \<open>H\<close>.
\<close>

definition compute_hash :: "(string \<Rightarrow> string) \<Rightarrow> fs \<Rightarrow> path \<Rightarrow> string option" where
  "compute_hash H fs file_path =
     (case read_bytes fs file_path of
        Inr c \<Rightarrow> Some (H c)
      | Inl e \<Rightarrow> None)"

definition files_are_identical :: "(string \<Rightarrow> string) \<Rightarrow> fs \<Rightarrow> path \<Rightarrow> path \<Rightarrow> bool" where
  "files_are_identical H fs file1 file2 =
     (case (compute_hash H fs file1, compute_hash H fs file2) of
        (Some hash1, Some hash2) \<Rightarrow> hash1 = hash2
      | _ \<Rightarrow> False)"

section \<open>Finding resources (resource\_locator.py)\<close>

subsection \<open>Glob patterns\<close>

text \<open>
  \<^verbatim>\<open>Path.rglob\<close> reads its argument as a pattern for one name: \<^verbatim>\<open>*\<close> stands for
  any characters, \<^verbatim>\<open>?\<close> for one character and \<^verbatim>\<open>[...]\<close> for one character of a
  class, as \<^verbatim>\<open>fnmatch.translate\<close> lays down; a name is compared as it is written
  (POSIX). \<open>bracket_end p\<close> is the place of the bracket that closes a class whose body
  starts \<open>p\<close>: a first \<^verbatim>\<open>!\<close> and a bracket right behind it do not close it.
\<close>

definition bracket_end :: "string \<Rightarrow> nat option" where
  "bracket_end p =
     (let j0 = (if take 1 p = ''!'' then 1 else 0);
          j1 = (if take 1 (drop j0 p) = '']'' then j0 + 1 else j0);
          j = j1 + length (takeWhile (\<lambda>c. c \<noteq> CHR '']'') (drop j1 p))
      in if j < length p then Some j else None)"

text \<open>The characters of a class body: \<^verbatim>\<open>x-y\<close> is a range, anything else stands for
  itself.\<close>

fun in_class :: "string \<Rightarrow> char \<Rightarrow> bool" where
  "in_class [] ch = False"
| "in_class (x # rest) ch =
     (case rest of
        m # y # rest' \<Rightarrow>
          if m = CHR ''-''
          then ((of_char x :: nat) \<le> of_char ch \<and> (of_char ch :: nat) \<le> of_char y) \<or> in_class rest' ch
          else ch = x \<or> in_class rest ch
      | _ \<Rightarrow> ch = x \<or> in_class rest ch)"

definition class_match :: "string \<Rightarrow> char \<Rightarrow> bool" where
  "class_match body ch =
     (if take 1 body = ''!'' then \<not> in_class (drop 1 body) ch else in_class body ch)"

function glob_match :: "string \<Rightarrow> string \<Rightarrow> bool" where
  "glob_match [] s = (s = [])"
| "glob_match (c # p) [] = (c = CHR ''*'' \<and> glob_match p [])"
| "glob_match (c # p) (x # s) =
     (if c = CHR ''*'' then glob_match p (x # s) \<or> glob_match (c # p) s
      else if c = CHR ''?'' then glob_match p s
      else if c = CHR ''['' then
        (case bracket_end p of
           None \<Rightarrow> x = c \<and> glob_match p s
         | Some j \<Rightarrow> class_match (take j p) x \<and> glob_match (drop (Suc j) p) s)
      else x = c \<and> glob_match p s)"
  by pat_completeness auto
termination
  by (relation "measure (\<lambda>(p, s). length p + length s)") auto

subsection \<open>The recursive walk\<close>

text \<open>
  \<^verbatim>\<open>root.rglob(pattern)\<close> for a pattern that is one name, as \<^verbatim>\<open>Path.name\<close> gives
  it (pathlib of Python 3.11). A name without \<^verbatim>\<open>*\<close>, \<^verbatim>\<open>?\<close> and \<^verbatim>\<open>[\<close> is
  looked up in every directory the walk comes to; any other is matched against the
  listing of the directory. Two stars inside a longer name are refused with
  \<^verbatim>\<open>ValueError\<close>, and two stars alone stand for the directories.
\<close>

definition has_wildcard :: "string \<Rightarrow> bool" where
  "has_wildcard pattern =
     (CHR ''*'' \<in> set pattern \<or> CHR ''?'' \<in> set pattern \<or> CHR ''['' \<in> set pattern)"

text \<open>
  The walk comes to the root and to every directory below it whose ancestors, from the
  root on, can all be listed: a directory that refuses its listing is passed over with
  all that lies below it (pathlib catches the \<^verbatim>\<open>PermissionError\<close>).
\<close>

definition reached :: "fs \<Rightarrow> path \<Rightarrow> path \<Rightarrow> bool" where
  "reached fs root d =
     ((d = root \<or> under root d) \<and> is_dir fs d \<and>
      list_all (\<lambda>a. listing_of fs a = Some Listable)
        (filter (\<lambda>a. a = root \<or> under root a) (parents d)))"

text \<open>Whether the entry \<open>q\<close> of a directory the walk has come to is yielded.\<close>

definition yields :: "fs \<Rightarrow> string \<Rightarrow> path \<Rightarrow> bool" where
  "yields fs pattern q =
     (if pattern = ''**'' then is_dir fs q \<and> listing_of fs (parent q) = Some Listable
      else if has_wildcard pattern
      then glob_match pattern (name q) \<and> listing_of fs (parent q) = Some Listable
      else name q = pattern)"

text \<open>What is yielded in a directory before its listing is asked for: the name that is
  looked up, when there is such an entry.\<close>

definition looked_up :: "fs \<Rightarrow> string \<Rightarrow> path \<Rightarrow> path list" where
  "looked_up fs pattern d =
     (if pattern \<noteq> [] \<and> pattern \<noteq> ''**'' \<and> \<not> has_wildcard pattern \<and>
         exists fs (join d pattern)
      then [join d pattern] else [])"

text \<open>
  The entries in the order of the walk. At a directory whose listing fails with an error
  that is no \<^verbatim>\<open>PermissionError\<close> the walk ends with that \<^verbatim>\<open>OSError\<close>; the result
  is what was yielded until then and whether the walk ended so.
\<close>

fun rglob_walk :: "fs \<Rightarrow> path \<Rightarrow> string \<Rightarrow> (path \<times> node) list \<Rightarrow> path list \<times> bool" where
  "rglob_walk fs root pattern [] = ([], False)"
| "rglob_walk fs root pattern ((q, n) # rest) =
     (if under root q \<and> reached fs root (parent q) then
        (let hit = (if yields fs pattern q then [q] else [])
         in if listing_of fs (parent q) = Some Listable \<and> listing_of fs q = Some Broken
            then (hit @ looked_up fs pattern q, True)
            else (case rglob_walk fs root pattern rest of (ps, raised) \<Rightarrow> (hit @ ps, raised)))
      else rglob_walk fs root pattern rest)"

definition rglob :: "fs \<Rightarrow> path \<Rightarrow> string \<Rightarrow> py_exception + (path list \<times> bool)" where
  "rglob fs root pattern =
     (if pattern \<noteq> ''**'' \<and> sublist ''**'' pattern then Inl ValueError
      else if \<not> is_dir fs root then Inr ([], False)
      else if listing_of fs root = Some Broken
      then Inr ((if pattern = ''**'' then [root] else []) @ looked_up fs pattern root, True)
      else (case rglob_walk fs root pattern fs of
              (ps, raised) \<Rightarrow> Inr ((if pattern = ''**'' then [root] else []) @ ps, raised)))"

text \<open>
  \<open>find_resource\<close>: the loop appends every yielded path that is a regular file; the
  handler around the loop catches \<^verbatim>\<open>OSError\<close> and prints a warning, and the list built
  so far is returned either way. The \<^verbatim>\<open>ValueError\<close> of a refused pattern is not caught.
\<close>

definition find_resource :: "fs \<Rightarrow> string \<Rightarrow> path \<Rightarrow> py_exception + path list" where
  "find_resource fs rname search_root =
     (case rglob fs search_root rname of
        Inl e \<Rightarrow> Inl e
      | Inr (yielded, raised) \<Rightarrow> Inr (filter (is_file fs) yielded))"

section \<open>Moving one resource (resource\_manager.py, sort\_md\_by\_year.py)\<close>

text \<open>\<^verbatim>\<open>name.rfind('.')\<close>: the place of the last dot.\<close>

definition rfind_dot :: "string \<Rightarrow> nat option" where
  "rfind_dot nm =
     (let k = length (takeWhile (\<lambda>c. c \<noteq> CHR ''.'') (rev nm))
      in if k = length nm then None else Some (length nm - 1 - k))"

text \<open>\<^verbatim>\<open>p.suffix\<close> and \<^verbatim>\<open>p.stem\<close>: the name is split at its last dot, unless that
  dot is its first or its last character.\<close>

definition suffix_of :: "path \<Rightarrow> string" where
  "suffix_of p =
     (case rfind_dot (name p) of
        Some i \<Rightarrow> if 0 < i \<and> i < length (name p) - 1 then drop i (name p) else []
      | None \<Rightarrow> [])"

definition stem :: "path \<Rightarrow> string" where
  "stem p =
     (case rfind_dot (name p) of
        Some i \<Rightarrow> if 0 < i \<and> i < length (name p) - 1 then take i (name p) else name p
      | None \<Rightarrow> name p)"

text \<open>The candidate \<^verbatim>\<open>parent / f"{stem}_{counter}{suffix}"\<close>.\<close>

definition candidate :: "path \<Rightarrow> nat \<Rightarrow> path" where
  "candidate target_path counter =
     join (parent target_path) (stem target_path @ ''_'' @ str_nat counter @ suffix_of target_path)"

text \<open>The decimal numerals of different numbers differ, so the candidates of different
  counters are different paths, and only finitely many of them exist.\<close>

lemma str_nat_nonempty: "str_nat n \<noteq> []"
  by (subst str_nat.simps) simp

lemma digit_char_inj: "a < 10 \<Longrightarrow> b < 10 \<Longrightarrow> digit_char a = digit_char b \<Longrightarrow> a = b"
proof -
  assume a: "a < 10" and b: "b < 10" and e: "digit_char a = digit_char b"
  from e have "(of_char (digit_char a) :: nat) = of_char (digit_char b)" by simp
  then have "(48 + a) mod 256 = (48 + b) mod 256" by (simp add: digit_char_def)
  with a b show "a = b" by simp
qed

lemma str_nat_inj: "str_nat m = str_nat n \<Longrightarrow> m = n"
proof (induction m arbitrary: n rule: str_nat.induct)
  case (1 m)
  show ?case
  proof (cases "m < 10")
    case small_m: True
    then have sm: "str_nat m = [digit_char m]" by (subst str_nat.simps) simp
    show ?thesis
    proof (cases "n < 10")
      case True
      then have "str_nat n = [digit_char n]" by (subst str_nat.simps) simp
      with sm "1.prems" small_m True show ?thesis by (simp add: digit_char_inj)
    next
      case False
      then have "str_nat n = str_nat (n div 10) @ [digit_char (n mod 10)]"
        by (subst str_nat.simps) simp
      with sm "1.prems" str_nat_nonempty [of "n div 10"] show ?thesis by simp
    qed
  next
    case big_m: False
    then have sm: "str_nat m = str_nat (m div 10) @ [digit_char (m mod 10)]"
      by (subst str_nat.simps) simp
    show ?thesis
    proof (cases "n < 10")
      case True
      then have "str_nat n = [digit_char n]" by (subst str_nat.simps) simp
      with sm "1.prems" str_nat_nonempty [of "m div 10"] show ?thesis by simp
    next
      case False
      then have "str_nat n = str_nat (n div 10) @ [digit_char (n mod 10)]"
        by (subst str_nat.simps) simp
      with sm "1.prems" have e1: "str_nat (m div 10) = str_nat (n div 10)"
        and e2: "digit_char (m mod 10) = digit_char (n mod 10)" by simp_all
      from "1.IH" [OF big_m e1] have "m div 10 = n div 10" .
      moreover from e2 have "m mod 10 = n mod 10" by (simp add: digit_char_inj)
      ultimately show ?thesis by (metis div_mult_mod_eq)
    qed
  qed
qed

lemma candidate_eq:
  "candidate t k = Path (absolute t) (butlast (comps t) @ [stem t @ ''_'' @ str_nat k @ suffix_of t])"
  by (simp add: candidate_def join_def parent_def)

lemma candidate_inj: "candidate t j = candidate t k \<Longrightarrow> j = k"
  by (simp add: candidate_eq str_nat_inj)

lemma finite_existing_candidates: "finite {k. exists fs (candidate t k)}"
proof -
  have "{k. exists fs (candidate t k)} = candidate t -` (fst ` set fs)"
    by (auto simp: exists_def map_of_eq_None_iff)
  moreover have "inj (candidate t)"
    by (rule injI) (rule candidate_inj)
  ultimately show ?thesis
    by (simp add: finite_vimageI)
qed

text \<open>The loop of \<open>get_unique_filename\<close>, from the counter it has reached.\<close>

function unique_from :: "fs \<Rightarrow> path \<Rightarrow> nat \<Rightarrow> path" where
  "unique_from fs target_path counter =
     (if \<not> exists fs (candidate target_path counter) then candidate target_path counter
      else unique_from fs target_path (counter + 1))"
  by pat_completeness auto
termination
proof (relation "measure (\<lambda>(fs, t, c). card {k. c \<le> k \<and> exists fs (candidate t k)})")
  show "wf (measure (\<lambda>(fs, t, c). card {k. c \<le> k \<and> exists fs (candidate t k)}))"
    by simp
next
  fix fs :: fs and target_path :: path and counter :: nat
  assume "\<not> \<not> exists fs (candidate target_path counter)"
  then have ex: "exists fs (candidate target_path counter)" by simp
  let ?A = "{k. counter + 1 \<le> k \<and> exists fs (candidate target_path k)}"
  let ?B = "{k. counter \<le> k \<and> exists fs (candidate target_path k)}"
  have fin: "finite ?B"
    by (rule finite_subset [OF _ finite_existing_candidates [of fs target_path]]) auto
  have "counter \<in> ?B" "counter \<notin> ?A" "?A \<subseteq> ?B" using ex by auto
  then have "?A \<subset> ?B" by blast
  with fin have "card ?A < card ?B" by (rule psubset_card_mono)
  then show "((fs, target_path, counter + 1), (fs, target_path, counter))
      \<in> measure (\<lambda>(fs, t, c). card {k. c \<le> k \<and> exists fs (candidate t k)})"
    by simp
qed

declare unique_from.simps [simp del]

definition get_unique_filename :: "fs \<Rightarrow> path \<Rightarrow> path" where
  "get_unique_filename fs target_path =
     (if \<not> exists fs target_path then target_path else unique_from fs target_path 1)"

text \<open>
  \<open>ResourceManager.move_resource_file\<close>. The result is the exception that leaves the
  function, or the returned triple (success, new file name, status) with the file system
  the call leaves behind. The handlers catch \<^verbatim>\<open>OSError\<close> only.
\<close>

definition move_resource_file ::
  "(string \<Rightarrow> string) \<Rightarrow> bool \<Rightarrow> fs \<Rightarrow> path \<Rightarrow> path \<Rightarrow> path \<Rightarrow> string \<Rightarrow>
   py_exception + ((bool \<times> string option \<times> string) \<times> fs)" where
  "move_resource_file H execute fs source_resource target_resource md_file resource_name =
     (if \<not> exists fs source_resource then Inr ((True, None, ''missing''), fs)
      else if exists fs target_resource then
        (if files_are_identical H fs source_resource target_resource
         then Inr ((True, None, ''identical''), fs)
         else
           (let unique_target = get_unique_filename fs target_resource;
                new_filename = name unique_target
            in if execute then
                 (case rename fs source_resource unique_target of
                    Inl e \<Rightarrow> Inr ((False, None, ''error''), fs)
                  | Inr fs1 \<Rightarrow>
                      (case update_resource_link fs1 md_file resource_name new_filename of
                         Inl e \<Rightarrow>
                           if e = OSError then Inr ((False, None, ''error''), fs1) else Inl e
                       | Inr (ok, fs2) \<Rightarrow> Inr ((True, Some new_filename, ''renamed''), fs2)))
               else Inr ((True, Some new_filename, ''renamed''), fs)))
      else
        (if execute then
           (case mkdir_parents fs (parent target_resource) of
              Inl e \<Rightarrow> Inr ((False, None, ''error''), fs)
            | Inr fs1 \<Rightarrow>
                (case rename fs1 source_resource target_resource of
                   Inl e \<Rightarrow> Inr ((False, None, ''error''), fs1)
                 | Inr fs2 \<Rightarrow> Inr ((True, None, ''moved''), fs2)))
         else Inr ((True, None, ''moved''), fs)))"

text \<open>
  The functions of the same names in sort\_md\_by\_year.py: the flag is an argument, the
  link is written back only when it is set, and two digests are compared only when both
  are non-empty strings.
\<close>

definition update_resource_link_in_markdown ::
  "fs \<Rightarrow> path \<Rightarrow> string \<Rightarrow> string \<Rightarrow> bool \<Rightarrow> py_exception + (bool \<times> fs)" where
  "update_resource_link_in_markdown fs md_file old_name new_name execute =
     (case read_text fs md_file of
        Inl e \<Rightarrow> Inr (False, fs)
      | Inr content \<Rightarrow>
          (case rewrite_old_links old_name new_name content of
             Inl e \<Rightarrow> Inl e
           | Inr new_content \<Rightarrow>
               if execute then
                 (case write_text fs md_file new_content of
                    Inl e \<Rightarrow> Inr (False, fs)
                  | Inr fs' \<Rightarrow> Inr (True, fs'))
               else Inr (True, fs)))"

text \<open>Python's truth value of \<^verbatim>\<open>str | None\<close>.\<close>

definition truthy :: "string option \<Rightarrow> bool" where
  "truthy h = (case h of None \<Rightarrow> False | Some s \<Rightarrow> s \<noteq> [])"

definition script_move_resource_file ::
  "(string \<Rightarrow> string) \<Rightarrow> fs \<Rightarrow> path \<Rightarrow> path \<Rightarrow> path \<Rightarrow> string \<Rightarrow> bool \<Rightarrow>
   py_exception + ((bool \<times> string option \<times> string) \<times> fs)" where
  "script_move_resource_file H fs source_resource target_resource md_file resource_name execute =
     (if \<not> exists fs source_resource then Inr ((True, None, ''missing''), fs)
      else if exists fs target_resource then
        (let source_hash = compute_hash H fs source_resource;
             target_hash = compute_hash H fs target_resource
         in if truthy source_hash \<and> truthy target_hash \<and> source_hash = target_hash
            then Inr ((True, None, ''identical''), fs)
            else
              (let unique_target = get_unique_filename fs target_resource;
                   new_filename = name unique_target
               in if execute then
                    (case rename fs source_resource unique_target of
                       Inl e \<Rightarrow> Inr ((False, None, ''error''), fs)
                     | Inr fs1 \<Rightarrow>
                         (case update_resource_link_in_markdown fs1 md_file resource_name
                                 new_filename True of
                            Inl e \<Rightarrow>
                              if e = OSError then Inr ((False, None, ''error''), fs1) else Inl e
                          | Inr (ok, fs2) \<Rightarrow> Inr ((True, Some new_filename, ''renamed''), fs2)))
                  else Inr ((True, Some new_filename, ''renamed''), fs)))
      else
        (if execute then
           (case mkdir_parents fs (parent target_resource) of
              Inl e \<Rightarrow> Inr ((False, None, ''error''), fs)
            | Inr fs1 \<Rightarrow>
                (case rename fs1 source_resource target_resource of
                   Inl e \<Rightarrow> Inr ((False, None, ''error''), fs1)
                 | Inr fs2 \<Rightarrow> Inr ((True, None, ''moved''), fs2)))
         else Inr ((True, None, ''moved''), fs)))"

text \<open>\<^verbatim>\<open>Path(link).name\<close> for the text of a link: the last of the components between
  the separators, where empty components and single dots do not count.\<close>

fun split_sep :: "char \<Rightarrow> string \<Rightarrow> string list" where
  "split_sep sep [] = [[]]"
| "split_sep sep (c # cs) =
     (if c = sep then [] # split_sep sep cs
      else (case split_sep sep cs of
              x # xs \<Rightarrow> (c # x) # xs
            | [] \<Rightarrow> [[c]]))"

definition link_file_name :: "string \<Rightarrow> string" where
  "link_file_name link =
     (let parts = filter (\<lambda>s. s \<noteq> [] \<and> s \<noteq> ''.'') (split_sep (CHR ''/'') link)
      in if parts = [] then [] else last parts)"

record move_stats =
  moved :: nat
  renamed :: nat
  missing :: nat
  errors :: nat

text \<open>\<open>move_resources_for_markdown\<close>: one call of \<open>move_resource_file\<close> for every link,
  each on the file system the call before it left.\<close>

fun move_each ::
  "(string \<Rightarrow> string) \<Rightarrow> bool \<Rightarrow> path \<Rightarrow> path \<Rightarrow> path \<Rightarrow> move_stats \<Rightarrow> fs \<Rightarrow> string list \<Rightarrow>
   py_exception + (move_stats \<times> fs)" where
  "move_each H execute md_file resources_path year_resources_dir stats fs [] = Inr (stats, fs)"
| "move_each H execute md_file resources_path year_resources_dir stats fs (resource_link # links) =
     (let resource_filename = link_file_name resource_link;
          source_resource = join resources_path resource_filename;
          target_resource = join year_resources_dir resource_filename
      in case move_resource_file H execute fs source_resource target_resource md_file
                resource_filename of
           Inl e \<Rightarrow> Inl e
         | Inr ((success, new_filename, status), fs') \<Rightarrow>
             move_each H execute md_file resources_path year_resources_dir
               (if success then
                  (if status = ''moved'' then stats\<lparr>moved := moved stats + 1\<rparr>
                   else if status = ''renamed'' then stats\<lparr>renamed := renamed stats + 1\<rparr>
                   else if status = ''missing'' then stats\<lparr>missing := missing stats + 1\<rparr>
                   else stats)
                else stats\<lparr>errors := errors stats + 1\<rparr>)
               fs' links)"

definition move_resources_for_markdown ::
  "(string \<Rightarrow> string) \<Rightarrow> bool \<Rightarrow> fs \<Rightarrow> path \<Rightarrow> string list \<Rightarrow> path \<Rightarrow> path \<Rightarrow>
   py_exception + (move_stats \<times> fs)" where
  "move_resources_for_markdown H execute fs md_file resource_links resources_path year_dir =
     move_each H execute md_file resources_path (join year_dir ''_resources'')
       \<lparr>moved = 0, renamed = 0, missing = 0, errors = 0\<rparr> fs resource_links"

section \<open>The reference array (resource\_analyzer.py)\<close>

record resource_reference =
  md_file_path :: path
  resource_name :: string
  resource_actual_path :: "path option"
  resource_hash :: "string option"

text \<open>
  The body of the inner loop of \<open>build_reference_array\<close>: the reference that is
  appended for one link of one note, given the paths \<open>find_resource\<close> returned and the
  digest function of the hasher. The set \<^verbatim>\<open>unique_hashes\<close> is the duplicate-free list
  of the digests that are not \<^verbatim>\<open>None\<close>.
\<close>

definition resolve_reference ::
  "path \<Rightarrow> string \<Rightarrow> path list \<Rightarrow> (path \<Rightarrow> string option) \<Rightarrow> resource_reference" where
  "resolve_reference md_file rname found_paths hasher =
     (case found_paths of
        [] \<Rightarrow>
          \<lparr>md_file_path = md_file, resource_name = rname,
           resource_actual_path = None, resource_hash = None\<rparr>
      | [resource_path] \<Rightarrow>
          \<lparr>md_file_path = md_file, resource_name = rname,
           resource_actual_path = Some resource_path, resource_hash = hasher resource_path\<rparr>
      | first # _ \<Rightarrow>
          (let hashes = map hasher found_paths;
               unique_hashes = remdups (filter (\<lambda>h. h \<noteq> None) hashes)
           in if length unique_hashes = 1
              then \<lparr>md_file_path = md_file, resource_name = rname,
                    resource_actual_path = Some first, resource_hash = hd hashes\<rparr>
              else \<lparr>md_file_path = md_file, resource_name = rname,
                    resource_actual_path = Some first, resource_hash = Some ''CONFLICT''\<rparr>))"

text \<open>
  \<open>build_reference_array\<close>: the notes are the entries below the base path that match
  \<^verbatim>\<open>*.md\<close>. An error of that walk, and the \<^verbatim>\<open>ValueError\<close> of a resource name
  that \<open>find_resource\<close> lets through, are not handled and end the function.
\<close>

fun references_of_links ::
  "(string \<Rightarrow> string) \<Rightarrow> fs \<Rightarrow> path \<Rightarrow> path \<Rightarrow> string list \<Rightarrow>
   py_exception + resource_reference list" where
  "references_of_links H fs base_path md_file [] = Inr []"
| "references_of_links H fs base_path md_file (resource_link # links) =
     (case find_resource fs (link_file_name resource_link) base_path of
        Inl e \<Rightarrow> Inl e
      | Inr found_paths \<Rightarrow>
          (case references_of_links H fs base_path md_file links of
             Inl e \<Rightarrow> Inl e
           | Inr refs \<Rightarrow>
               Inr (resolve_reference md_file (link_file_name resource_link) found_paths
                      (compute_hash H fs) # refs)))"

fun references_of_notes ::
  "(string \<Rightarrow> string) \<Rightarrow> fs \<Rightarrow> path \<Rightarrow> path list \<Rightarrow>
   py_exception + resource_reference list" where
  "references_of_notes H fs base_path [] = Inr []"
| "references_of_notes H fs base_path (md_file # md_files) =
     (case references_of_links H fs base_path md_file (extract_resource_links fs md_file) of
        Inl e \<Rightarrow> Inl e
      | Inr refs \<Rightarrow>
          (case references_of_notes H fs base_path md_files of
             Inl e \<Rightarrow> Inl e
           | Inr others \<Rightarrow> Inr (refs @ others)))"

definition build_reference_array ::
  "(string \<Rightarrow> string) \<Rightarrow> fs \<Rightarrow> path \<Rightarrow> py_exception + resource_reference list" where
  "build_reference_array H fs base_path =
     (case rglob fs base_path ''*.md'' of
        Inl e \<Rightarrow> Inl e
      | Inr (md_files, raised) \<Rightarrow>
          if raised then Inl OSError
          else references_of_notes H fs base_path md_files)"

text \<open>
  A \<^verbatim>\<open>defaultdict(list)\<close> keeps its keys in the order of their first insertion:
  \<^verbatim>\<open>d[k].append(v)\<close> on an association list.
\<close>

fun dict_append :: "'k \<Rightarrow> 'v \<Rightarrow> ('k \<times> 'v list) list \<Rightarrow> ('k \<times> 'v list) list" where
  "dict_append k v [] = [(k, [v])]"
| "dict_append k v ((k', vs) # rest) =
     (if k' = k then (k', vs @ [v]) # rest else (k', vs) # dict_append k v rest)"

text \<open>\<open>detect_conflicts\<close>: the references with a digest that is neither empty nor the
  flag, by name; a name is kept when its references carry more than one digest.\<close>

definition by_name :: "resource_reference list \<Rightarrow> (string \<times> resource_reference list) list" where
  "by_name references =
     foldl (\<lambda>d ref. if truthy (resource_hash ref) \<and> resource_hash ref \<noteq> Some ''CONFLICT''
                     then dict_append (resource_name ref) ref d else d)
       [] references"

definition detect_conflicts ::
  "resource_reference list \<Rightarrow> (string \<times> resource_reference list) list" where
  "detect_conflicts references =
     filter (\<lambda>(rname, refs).
               1 < length (remdups (map resource_hash
                                     (filter (\<lambda>ref. truthy (resource_hash ref)) refs))))
       (by_name references)"

text \<open>\<open>group_by_resource\<close>: the notes of every resolved path; a reference without a
  path or with the flag is passed over.\<close>

definition group_by_resource :: "resource_reference list \<Rightarrow> (path \<times> path list) list" where
  "group_by_resource references =
     foldl (\<lambda>grouped ref.
              case resource_actual_path ref of
                None \<Rightarrow> grouped
              | Some p \<Rightarrow>
                  if resource_hash ref = Some ''CONFLICT'' then grouped
                  else dict_append p (md_file_path ref) grouped)
       [] references"

section \<open>Lowest common ancestor (resource\_analyzer.py)\<close>

text \<open>
  Python's \<^verbatim>\<open>max(iterable, key=f)\<close>: the first element, in iteration order, whose key
  is maximal.
\<close>

fun max_by_key :: "('a \<Rightarrow> nat) \<Rightarrow> 'a \<Rightarrow> 'a list \<Rightarrow> 'a" where
  "max_by_key key best [] = best"
| "max_by_key key best (x # xs) = max_by_key key (if key best < key x then x else best) xs"

text \<open>
  The set \<^verbatim>\<open>common_ancestors\<close> is kept as a duplicate-free list (the ancestors of the
  first path that every other path has too). Python iterates a set in an order of its
  own; \<open>lca_max_unique\<close> below shows that the maximum is attained once only, so the
  order cannot change the result.
\<close>

definition common_ancestors :: "path list \<Rightarrow> path list" where
  "common_ancestors paths =
     (let all_parents = map parents paths
      in filter (\<lambda>a. \<forall>ps \<in> set (tl all_parents). a \<in> set ps) (remdups (hd all_parents)))"

definition find_lowest_common_ancestor :: "path \<Rightarrow> path list \<Rightarrow> path" where
  "find_lowest_common_ancestor base_path paths =
     (case paths of
        [] \<Rightarrow> base_path
      | [p] \<Rightarrow> parent p
      | _ \<Rightarrow> (case common_ancestors paths of
                [] \<Rightarrow> base_path
              | c # cs \<Rightarrow> max_by_key parts_len c cs))"

text \<open>\<open>is_ancestor a p\<close>: \<open>a\<close> is one of \<^verbatim>\<open>p.parents\<close>.\<close>

definition is_ancestor :: "path \<Rightarrow> path \<Rightarrow> bool" where
  "is_ancestor a p = (a \<in> set (parents p))"

section \<open>Planning and moving (resource\_optimizer.py)\<close>

subsection \<open>Rewriting the links of a note to a moved resource\<close>

text \<open>\<^verbatim>\<open>p.relative_to(other)\<close> raises \<^verbatim>\<open>ValueError\<close> unless \<open>other\<close> is \<open>p\<close> or
  above it; \<^verbatim>\<open>str\<close> of a relative path joins its components, a dot for none.\<close>

definition relative_to :: "path \<Rightarrow> path \<Rightarrow> path option" where
  "relative_to p other =
     (if absolute p = absolute other \<and> prefix (comps other) (comps p)
      then Some (Path False (drop (length (comps other)) (comps p)))
      else None)"

fun join_sep :: "string list \<Rightarrow> string" where
  "join_sep [] = []"
| "join_sep [x] = x"
| "join_sep (x # y # rest) = x @ ''/'' @ join_sep (y # rest)"

definition str_path :: "path \<Rightarrow> string" where
  "str_path p =
     (if comps p = [] then (if absolute p then ''/'' else ''.'')
      else (if absolute p then ''/'' else []) @ join_sep (comps p))"

text \<open>\<^verbatim>\<open>(\|[^\]]+\]|\]\])\<close> at the start of \<open>s\<close>: the first alternative ends with one
  bracket.\<close>

definition md_link_tail :: "string \<Rightarrow> (string \<times> nat) option" where
  "md_link_tail s =
     (if take 1 s = ''|'' then
        (let run = takeWhile (\<lambda>c. c \<noteq> CHR '']'') (drop 1 s)
         in if run \<noteq> [] \<and> take 1 (drop (1 + length run) s) = '']''
            then Some (''|'' @ run @ '']'', length run + 2) else None)
      else if take 2 s = '']]'' then Some ('']]'', 2)
      else None)"

text \<open>The escaped name and the tail at the start of \<open>s\<close>.\<close>

definition name_tail_at :: "string \<Rightarrow> string \<Rightarrow> (string \<times> nat) option" where
  "name_tail_at rname s =
     (if take (length rname) s = rname
      then (case md_link_tail (drop (length rname) s) of
              Some (g2, n) \<Rightarrow> Some (g2, length rname + n)
            | None \<Rightarrow> None)
      else None)"

text \<open>
  The lazy \<^verbatim>\<open>.*?/\<close> and what follows it: the nearest slash on the line behind which
  the name and the tail match. The dot matches no newline.
\<close>

fun lazy_slash :: "string \<Rightarrow> string \<Rightarrow> (string \<times> nat) option" where
  "lazy_slash rname [] = None"
| "lazy_slash rname (c # cs) =
     (if c = NL then None
      else (case (if c = CHR ''/'' then name_tail_at rname cs else None) of
              Some (g2, n) \<Rightarrow> Some (g2, Suc n)
            | None \<Rightarrow> map_option (\<lambda>(g2, n). (g2, Suc n)) (lazy_slash rname cs)))"

text \<open>\<^verbatim>\<open>(!\[\[)(?:.*?/)?\<close>, the escaped name and the tail at the start of \<open>s\<close>: the
  optional group is tried first, and left out when no slash leads to a match.\<close>

definition md_link_at :: "string \<Rightarrow> string \<Rightarrow> (string \<times> string \<times> nat) option" where
  "md_link_at rname s =
     (if take 3 s = ''![[''
      then (case lazy_slash rname (drop 3 s) of
              Some (g2, n) \<Rightarrow> Some (''![['', g2, 3 + n)
            | None \<Rightarrow>
                (case name_tail_at rname (drop 3 s) of
                   Some (g2, n) \<Rightarrow> Some (''![['', g2, 3 + n)
                 | None \<Rightarrow> None))
      else None)"

fun sub_md_links :: "string \<Rightarrow> titem list \<Rightarrow> string \<Rightarrow> string" where
  "sub_md_links rname items [] = []"
| "sub_md_links rname items (c # cs) =
     (case md_link_at rname (c # cs) of
        Some (g1, g2, n) \<Rightarrow>
          expand items (take n (c # cs)) g1 g2 @ sub_md_links rname items (drop (n - 1) cs)
      | None \<Rightarrow> c # sub_md_links rname items cs)"

text \<open>\<^verbatim>\<open>s.replace('\\', '/')\<close>.\<close>

definition backslashes_to_slashes :: "string \<Rightarrow> string" where
  "backslashes_to_slashes s = map (\<lambda>c. if c = BS then CHR ''/'' else c) s"

text \<open>\<open>ResourceOptimizer._update_markdown_link\<close>.\<close>

definition update_markdown_link ::
  "fs \<Rightarrow> path \<Rightarrow> string \<Rightarrow> path \<Rightarrow> py_exception + (bool \<times> fs)" where
  "update_markdown_link fs md_file rname new_resource_path =
     (case read_text fs md_file of
        Inl e \<Rightarrow> Inr (False, fs)
      | Inr content \<Rightarrow>
          (let md_dir = parent md_file;
               relative_path = (case relative_to new_resource_path md_dir of
                                  Some r \<Rightarrow> r
                                | None \<Rightarrow> join (Path False [''_resources'']) rname);
               relative_str = backslashes_to_slashes (str_path relative_path)
           in case parse_template ([BS, CHR ''1''] @ relative_str @ [BS, CHR ''2'']) of
                Inl e \<Rightarrow> Inl e
              | Inr items \<Rightarrow>
                  (case write_text fs md_file (sub_md_links rname items content) of
                     Inl e \<Rightarrow> Inr (False, fs)
                   | Inr fs' \<Rightarrow> Inr (True, fs'))))"

text \<open>The loop over the notes of a moved resource; what a call returns is not looked
  at.\<close>

fun update_all_links :: "fs \<Rightarrow> string \<Rightarrow> path \<Rightarrow> path list \<Rightarrow> py_exception + fs" where
  "update_all_links fs rname target [] = Inr fs"
| "update_all_links fs rname target (md_file # md_files) =
     (case update_markdown_link fs md_file rname target of
        Inl e \<Rightarrow> Inl e
      | Inr (ok, fs') \<Rightarrow> update_all_links fs' rname target md_files)"

text \<open>\<open>ResourceOptimizer._move_resource\<close>; the handler catches \<^verbatim>\<open>OSError\<close>.\<close>

definition move_resource :: "bool \<Rightarrow> fs \<Rightarrow> path \<Rightarrow> path \<Rightarrow> path list \<Rightarrow> py_exception + (bool \<times> fs)" where
  "move_resource execute fs source target md_files =
     (if execute then
        (case mkdir_parents fs (parent target) of
           Inl e \<Rightarrow> Inr (False, fs)
         | Inr fs1 \<Rightarrow>
             (case rename fs1 source target of
                Inl e \<Rightarrow> Inr (False, fs1)
              | Inr fs2 \<Rightarrow>
                  (case update_all_links fs2 (name source) target md_files of
                     Inl e \<Rightarrow> if e = OSError then Inr (False, fs2) else Inl e
                   | Inr fs3 \<Rightarrow> Inr (True, fs3))))
      else Inr (True, fs))"

subsection \<open>The four phases\<close>

text \<open>The counters of \<open>optimize_resources\<close>; the keys \<^verbatim>\<open>'moved'\<close> and
  \<^verbatim>\<open>'errors'\<close> of its dictionary are the fields \<open>n_moved\<close> and \<open>n_errors\<close>.\<close>

record optimize_stats =
  n_moved :: nat
  skipped_conflict :: nat
  skipped_optimal :: nat
  n_errors :: nat

type_synonym planned_move = "path \<times> path \<times> path list"

text \<open>The paths of the references that \<open>detect_conflicts\<close> returned.\<close>

definition conflict_paths :: "(string \<times> resource_reference list) list \<Rightarrow> path list" where
  "conflict_paths conflicts =
     concat (map (\<lambda>(rname, refs). concat (map (\<lambda>ref. case resource_actual_path ref of
                                                      Some p \<Rightarrow> [p] | None \<Rightarrow> []) refs))
                 conflicts)"

definition optimal_location :: "path \<Rightarrow> path \<Rightarrow> path list \<Rightarrow> path" where
  "optimal_location base_path resource_path md_files =
     join (join (find_lowest_common_ancestor base_path md_files) ''_resources'')
       (name resource_path)"

text \<open>
  The body of the loop of phase 3 for one group. The lines it prints call
  \<^verbatim>\<open>relative_to(self.base_path)\<close>, which raises for a path that is not below the base
  path.
\<close>

definition plan_step ::
  "path \<Rightarrow> path list \<Rightarrow> planned_move list \<times> optimize_stats \<Rightarrow> path \<times> path list \<Rightarrow>
   py_exception + (planned_move list \<times> optimize_stats)" where
  "plan_step base_path cpaths acc entry =
     (case acc of (moves, stats) \<Rightarrow>
      case entry of (resource_path, md_files) \<Rightarrow>
        if resource_path \<in> set cpaths
        then Inr (moves, stats\<lparr>skipped_conflict := skipped_conflict stats + 1\<rparr>)
        else if resource_path = optimal_location base_path resource_path md_files
        then (case relative_to resource_path base_path of
                None \<Rightarrow> Inl ValueError
              | Some r \<Rightarrow> Inr (moves, stats\<lparr>skipped_optimal := skipped_optimal stats + 1\<rparr>))
        else (case (relative_to resource_path base_path,
                    relative_to (optimal_location base_path resource_path md_files) base_path) of
                (Some r1, Some r2) \<Rightarrow>
                  Inr (moves @ [(resource_path,
                                 optimal_location base_path resource_path md_files, md_files)],
                       stats)
              | _ \<Rightarrow> Inl ValueError))"

fun plan_moves ::
  "path \<Rightarrow> path list \<Rightarrow> planned_move list \<times> optimize_stats \<Rightarrow> (path \<times> path list) list \<Rightarrow>
   py_exception + (planned_move list \<times> optimize_stats)" where
  "plan_moves base_path cpaths acc [] = Inr acc"
| "plan_moves base_path cpaths acc (entry # rest) =
     (case plan_step base_path cpaths acc entry of
        Inl e \<Rightarrow> Inl e
      | Inr acc' \<Rightarrow> plan_moves base_path cpaths acc' rest)"

text \<open>Phase 4: one call of \<open>_move_resource\<close> for every queued move.\<close>

fun run_moves ::
  "bool \<Rightarrow> optimize_stats \<Rightarrow> fs \<Rightarrow> planned_move list \<Rightarrow> py_exception + (optimize_stats \<times> fs)" where
  "run_moves execute stats fs [] = Inr (stats, fs)"
| "run_moves execute stats fs ((resource_path, target, md_files) # rest) =
     (case move_resource execute fs resource_path target md_files of
        Inl e \<Rightarrow> Inl e
      | Inr (success, fs') \<Rightarrow>
          run_moves execute
            (if success then stats\<lparr>n_moved := n_moved stats + 1\<rparr>
             else stats\<lparr>n_errors := n_errors stats + 1\<rparr>)
            fs' rest)"

text \<open>
  \<open>optimize_resources\<close>: the queue of moves of phase 3, the counters of the summary and
  the file system the run leaves behind, or the exception that ends the run.
\<close>

definition planned ::
  "(string \<Rightarrow> string) \<Rightarrow> fs \<Rightarrow> path \<Rightarrow> py_exception + (planned_move list \<times> optimize_stats)" where
  "planned H fs base_path =
     (case build_reference_array H fs base_path of
        Inl e \<Rightarrow> Inl e
      | Inr references \<Rightarrow>
          plan_moves base_path (conflict_paths (detect_conflicts references))
            ([], \<lparr>n_moved = 0, skipped_conflict = 0, skipped_optimal = 0, n_errors = 0\<rparr>)
            (group_by_resource references))"

definition optimize_resources ::
  "(string \<Rightarrow> string) \<Rightarrow> bool \<Rightarrow> fs \<Rightarrow> path \<Rightarrow>
   py_exception + ((planned_move list \<times> optimize_stats) \<times> fs)" where
  "optimize_resources H execute fs base_path =
     (case planned H fs base_path of
        Inl e \<Rightarrow> Inl e
      | Inr (moves, stats) \<Rightarrow>
          (case run_moves execute stats fs moves of
             Inl e \<Rightarrow> Inl e
           | Inr (stats', fs') \<Rightarrow> Inr ((moves, stats'), fs')))"

section \<open>A small vault\<close>

text \<open>
  The file system the theorems are tried on: the resource \<open>a.png\<close> lies in the
  resource folder of the vault, cannot be read, and is used by the two notes of
  \<open>vault/2023\<close>; the resource \<open>b.png\<close> lies in the resource folder of \<open>vault/2023\<close>
  and is used by one of them.
\<close>

definition vault :: path where
  "vault = Path False [''vault'']"

definition example_fs :: fs where
  "example_fs =
     [(Path False [''vault''], Dir True Listable),
      (Path False [''vault'', ''_resources''], Dir True Listable),
      (Path False [''vault'', ''_resources'', ''a.png''], File ''AAA'' False True False),
      (Path False [''vault'', ''2023''], Dir True Listable),
      (Path False [''vault'', ''2023'', ''_resources''], Dir True Listable),
      (Path False [''vault'', ''2023'', ''_resources'', ''b.png''], File ''BBB'' True True False),
      (Path False [''vault'', ''2023'', ''n.md''],
         File ''see ![[_resources/a.png]] and [[_resources/b.png|x]]'' True True True),
      (Path False [''vault'', ''2023'', ''m.md''],
         File ''![[_resources/a.png|pic]]'' True True True)]"




text \<open>
  Four dated notes: one whose front matter holds a creation date and whose file name
  holds none that is valid, one without front matter, one whose file name holds the
  month 13, and one that cannot be read.
\<close>

definition dated_fs :: fs where
  "dated_fs =
     [(Path False [''v''], Dir True Listable),
      (Path False [''v'', ''20231305_x.md''],
         File (''--- '' @ [NL] @ ''Created at: 2021-05-06'' @ [NL] @ ''---'' @ [NL] @ ''body'')
           True True True),
      (Path False [''v'', ''20190203_a.md''], File ''no front matter'' True True True),
      (Path False [''v'', ''20191303_a.md''], File ''no front matter'' True True True),
      (Path False [''v'', ''20200101_u.md''], File ''no front matter'' False True True)]"
section \<open>Facts about paths\<close>

lemma is_ancestor_iff:
  "is_ancestor a p \<longleftrightarrow> absolute a = absolute p \<and> strict_prefix (comps a) (comps p)"
proof
  assume "is_ancestor a p"
  then obtain k where k: "k < length (comps p)" and a: "a = Path (absolute p) (take k (comps p))"
    by (auto simp: is_ancestor_def parents_def)
  have "prefix (take k (comps p)) (comps p)" by (rule take_is_prefix)
  moreover have "take k (comps p) \<noteq> comps p" using k
    by (metis length_take min.absorb2 nat_less_le)
  ultimately show "absolute a = absolute p \<and> strict_prefix (comps a) (comps p)"
    using a by (simp add: strict_prefix_def)
next
  assume h: "absolute a = absolute p \<and> strict_prefix (comps a) (comps p)"
  then obtain zs where zs: "comps p = comps a @ zs" "zs \<noteq> []"
    by (auto simp: strict_prefix_def prefix_def)
  then have "length (comps a) < length (comps p)" by simp
  moreover have "a = Path (absolute p) (take (length (comps a)) (comps p))"
    using h zs by (cases a) simp
  ultimately show "is_ancestor a p"
    unfolding is_ancestor_def parents_def
    by (auto simp: image_iff intro!: bexI [of _ "length (comps a)"])
qed

lemma max_by_key_mem: "max_by_key key b xs \<in> set (b # xs)"
  by (induction xs arbitrary: b) (auto split: if_splits)

lemma max_by_key_mono: "key b \<le> key (max_by_key key b xs)"
proof (induction xs arbitrary: b)
  case Nil
  then show ?case by simp
next
  case (Cons y ys)
  show ?case
  proof (cases "key b < key y")
    case True
    with Cons [of y] show ?thesis by simp
  next
    case False
    with Cons [of b] show ?thesis by simp
  qed
qed

lemma max_by_key_ge: "x \<in> set (b # xs) \<Longrightarrow> key x \<le> key (max_by_key key b xs)"
proof (induction xs arbitrary: b)
  case Nil
  then show ?case by simp
next
  case (Cons y ys)
  let ?b = "if key b < key y then y else b"
  have step: "max_by_key key b (y # ys) = max_by_key key ?b ys" by simp
  from Cons.prems consider "x = b" | "x = y" | "x \<in> set ys" by auto
  then show ?case
  proof cases
    case 1
    have "key x \<le> key ?b" using 1 by simp
    also have "\<dots> \<le> key (max_by_key key ?b ys)" by (rule max_by_key_mono)
    finally show ?thesis unfolding step .
  next
    case 2
    have "key x \<le> key ?b" using 2 by simp
    also have "\<dots> \<le> key (max_by_key key ?b ys)" by (rule max_by_key_mono)
    finally show ?thesis unfolding step .
  next
    case 3
    then have "x \<in> set (?b # ys)" by simp
    from Cons.IH [OF this] show ?thesis unfolding step .
  qed
qed

lemma common_ancestors_iff:
  "paths \<noteq> [] \<Longrightarrow> a \<in> set (common_ancestors paths) \<longleftrightarrow> (\<forall>p \<in> set paths. is_ancestor a p)"
  by (cases paths) (auto simp: common_ancestors_def is_ancestor_def)

lemma ancestors_chain:
  assumes "is_ancestor a p" and "is_ancestor b p" and "parts_len a \<le> parts_len b"
  shows "a = b \<or> is_ancestor a b"
proof -
  from assms have ab: "absolute a = absolute b"
    and pa: "prefix (comps a) (comps p)" and pb: "prefix (comps b) (comps p)"
    by (auto simp: is_ancestor_iff strict_prefix_def)
  with assms(3) have "length (comps a) \<le> length (comps b)" by (simp add: parts_len_def)
  with pa pb have "prefix (comps a) (comps b)"
    by (metis prefix_length_prefix)
  then show ?thesis
    using ab by (cases a; cases b) (auto simp: is_ancestor_iff strict_prefix_def)
qed

lemma is_ancestor_parts_len: "is_ancestor a b \<Longrightarrow> parts_len a < parts_len b"
  by (auto simp: is_ancestor_iff parts_len_def prefix_length_less)

lemma lca_max_unique:
  assumes "paths \<noteq> []"
    and "a \<in> set (common_ancestors paths)" and "b \<in> set (common_ancestors paths)"
    and "parts_len a = parts_len b"
  shows "a = b"
proof -
  from assms obtain p where "is_ancestor a p" "is_ancestor b p"
    by (cases paths) (auto simp: common_ancestors_iff)
  with assms(4) ancestors_chain [of a p b] is_ancestor_parts_len [of a b] show ?thesis
    by auto
qed

lemma parent_is_deepest:
  assumes "is_ancestor a p"
  shows "is_ancestor (parent p) p \<and> (a = parent p \<or> is_ancestor a (parent p))"
proof -
  from assms obtain zs where zs: "comps p = comps a @ zs" "zs \<noteq> []" and ab: "absolute a = absolute p"
    by (auto simp: is_ancestor_iff strict_prefix_def prefix_def)
  then have ne: "comps p \<noteq> []" by simp
  have bl: "butlast (comps p) = comps a @ butlast zs"
    using zs by (simp add: butlast_append)
  have 1: "is_ancestor (parent p) p"
    using ne by (simp add: is_ancestor_iff parent_def strict_prefix_def prefix_def)
      (metis append_butlast_last_id append_self_conv not_Cons_self2)
  have 2: "a = parent p \<or> is_ancestor a (parent p)"
    using ab bl by (cases a) (auto simp: is_ancestor_iff parent_def strict_prefix_def)
  from 1 2 show ?thesis ..
qed

lemma lca_general:
  assumes ne: "paths \<noteq> []" and ex: "\<forall>p \<in> set paths. is_ancestor a p"
  shows "(\<forall>p \<in> set paths. is_ancestor (find_lowest_common_ancestor base_path paths) p) \<and>
         (a = find_lowest_common_ancestor base_path paths \<or>
          is_ancestor a (find_lowest_common_ancestor base_path paths))"
proof (cases paths)
  case Nil
  with ne show ?thesis by simp
next
  case (Cons p rest)
  show ?thesis
  proof (cases rest)
    case Nil
    with Cons ex parent_is_deepest [of a p] show ?thesis
      by (simp add: find_lowest_common_ancestor_def)
  next
    case (Cons q rest')
    from ne ex have mem: "a \<in> set (common_ancestors paths)"
      by (simp add: common_ancestors_iff)
    then obtain c cs where ccs: "common_ancestors paths = c # cs"
      by (cases "common_ancestors paths") auto
    define r where "r = max_by_key parts_len c cs"
    have r: "find_lowest_common_ancestor base_path paths = r"
      using \<open>paths = p # rest\<close> Cons ccs by (simp add: find_lowest_common_ancestor_def r_def)
    have "r \<in> set (common_ancestors paths)"
      unfolding r_def ccs by (rule max_by_key_mem)
    then have rall: "\<forall>p \<in> set paths. is_ancestor r p"
      using ne by (simp add: common_ancestors_iff)
    have "parts_len a \<le> parts_len r"
      unfolding r_def using mem ccs by (intro max_by_key_ge) simp
    moreover have "is_ancestor a p" "is_ancestor r p"
      using ex rall \<open>paths = p # rest\<close> by auto
    ultimately have "a = r \<or> is_ancestor a r"
      by (intro ancestors_chain)
    with rall r show ?thesis by simp
  qed
qed

lemma lca_none:
  assumes "\<not> (\<exists>a. \<forall>p \<in> set paths. is_ancestor a p)" and "2 \<le> length paths"
  shows "find_lowest_common_ancestor base_path paths = base_path"
proof -
  from assms(2) obtain p q rest where pq: "paths = p # q # rest"
    by (cases paths; cases "tl paths") auto
  then have ne: "paths \<noteq> []" by simp
  have "common_ancestors paths = []"
  proof (cases "common_ancestors paths")
    case Nil
    then show ?thesis .
  next
    case (Cons c cs)
    then have "c \<in> set (common_ancestors paths)" by simp
    with ne have "\<forall>p \<in> set paths. is_ancestor c p" by (simp add: common_ancestors_iff)
    with assms(1) show ?thesis by blast
  qed
  with pq show ?thesis by (simp add: find_lowest_common_ancestor_def)
qed

lemma lca_siblings:
  assumes "A \<noteq> B"
  shows "find_lowest_common_ancestor base_path
           [Path ab (root @ [X, A, n1]), Path ab (root @ [X, B, n2])] = Path ab (root @ [X])"
proof -
  let ?p = "Path ab (root @ [X, A, n1])" and ?q = "Path ab (root @ [X, B, n2])"
  let ?r = "find_lowest_common_ancestor base_path [?p, ?q]"
  let ?x = "Path ab (root @ [X])"
  have xa: "\<forall>p \<in> set [?p, ?q]. is_ancestor ?x p"
    by (simp add: is_ancestor_iff strict_prefix_def prefix_def)
  from lca_general [OF _ xa, of base_path]
  have rp: "is_ancestor ?r ?p" and rq: "is_ancestor ?r ?q" and xr: "?x = ?r \<or> is_ancestor ?x ?r"
    by auto
  show ?thesis
  proof (rule ccontr)
    assume "?r \<noteq> ?x"
    with xr have sx: "strict_prefix (root @ [X]) (comps ?r)" and abr: "absolute ?r = ab"
      by (auto simp: is_ancestor_iff)
    then obtain zs where zs: "comps ?r = root @ [X] @ zs" "zs \<noteq> []"
      by (auto simp: strict_prefix_def prefix_def)
    then obtain z zs' where z: "zs = z # zs'" by (cases zs) auto
    from rp zs z have "z = A" by (auto simp: is_ancestor_iff strict_prefix_def prefix_def)
    moreover from rq zs z have "z = B" by (auto simp: is_ancestor_iff strict_prefix_def prefix_def)
    ultimately show False using assms by simp
  qed
qed

section \<open>Facts about the reference array\<close>

lemma dict_append_pairs:
  "(\<exists>vs. (k', vs) \<in> set (dict_append k v d) \<and> x \<in> set vs) \<longleftrightarrow>
     (k' = k \<and> x = v) \<or> (\<exists>vs. (k', vs) \<in> set d \<and> x \<in> set vs)"
proof (induction d)
  case Nil
  then show ?case by auto
next
  case (Cons a d)
  obtain k0 vs0 where a: "a = (k0, vs0)" by (cases a)
  show ?case
  proof (cases "k0 = k")
    case True
    have "(\<exists>vs. (k', vs) \<in> set (dict_append k v (a # d)) \<and> x \<in> set vs) \<longleftrightarrow>
          (k' = k \<and> x \<in> set (vs0 @ [v])) \<or> (\<exists>vs. (k', vs) \<in> set d \<and> x \<in> set vs)"
      unfolding a using True by (simp del: set_append) blast
    also have "\<dots> \<longleftrightarrow> (k' = k \<and> x = v) \<or> (k' = k0 \<and> x \<in> set vs0) \<or> (\<exists>vs. (k', vs) \<in> set d \<and> x \<in> set vs)"
      using True by auto
    also have "\<dots> \<longleftrightarrow> (k' = k \<and> x = v) \<or> (\<exists>vs. (k', vs) \<in> set (a # d) \<and> x \<in> set vs)"
      unfolding a by (simp) blast
    finally show ?thesis .
  next
    case False
    have "(\<exists>vs. (k', vs) \<in> set (dict_append k v (a # d)) \<and> x \<in> set vs) \<longleftrightarrow>
          (k' = k0 \<and> x \<in> set vs0) \<or> (\<exists>vs. (k', vs) \<in> set (dict_append k v d) \<and> x \<in> set vs)"
      using False unfolding a by simp blast
    also have "\<dots> \<longleftrightarrow> (k' = k0 \<and> x \<in> set vs0) \<or> (k' = k \<and> x = v) \<or>
          (\<exists>vs. (k', vs) \<in> set d \<and> x \<in> set vs)"
      unfolding Cons.IH ..
    also have "\<dots> \<longleftrightarrow> (k' = k \<and> x = v) \<or> (\<exists>vs. (k', vs) \<in> set (a # d) \<and> x \<in> set vs)"
      unfolding a by simp blast
    finally show ?thesis .
  qed
qed

lemma dict_append_values:
  "(k', vs) \<in> set (dict_append k v d) \<Longrightarrow> x \<in> set vs \<Longrightarrow>
     x = v \<or> (\<exists>vs0. (k', vs0) \<in> set d \<and> x \<in> set vs0)"
  using dict_append_pairs [of k' k v d x] by blast

lemma dict_append_keeps:
  "(k', vs) \<in> set d \<Longrightarrow> x \<in> set vs \<Longrightarrow> \<exists>vs'. (k', vs') \<in> set (dict_append k v d) \<and> x \<in> set vs'"
  using dict_append_pairs [of k' k v d x] by blast

lemma dict_append_adds: "\<exists>vs. (k, vs) \<in> set (dict_append k v d) \<and> v \<in> set vs"
  using dict_append_pairs [of k k v d v] by blast



lemma by_name_fold_values:
  assumes "(nm, refs) \<in> set (foldl (\<lambda>d ref. if P ref then dict_append (resource_name ref) ref d else d) d0 rs)"
    and "x \<in> set refs"
  shows "P x \<or> (\<exists>vs0. (nm, vs0) \<in> set d0 \<and> x \<in> set vs0)"
  using assms
proof (induction rs arbitrary: d0)
  case Nil
  then show ?case by auto
next
  case (Cons r rs)
  let ?d1 = "if P r then dict_append (resource_name r) r d0 else d0"
  from Cons.prems(1) have "(nm, refs) \<in> set (foldl (\<lambda>d ref. if P ref then dict_append (resource_name ref) ref d else d) ?d1 rs)"
    by simp
  from Cons.IH [OF this Cons.prems(2)]
  have "P x \<or> (\<exists>vs0. (nm, vs0) \<in> set ?d1 \<and> x \<in> set vs0)" .
  then show ?case
  proof
    assume "P x" then show ?thesis ..
  next
    assume "\<exists>vs0. (nm, vs0) \<in> set ?d1 \<and> x \<in> set vs0"
    then obtain vs0 where v: "(nm, vs0) \<in> set ?d1" "x \<in> set vs0" by blast
    show ?thesis
    proof (cases "P r")
      case True
      with v dict_append_values [of nm vs0 "resource_name r" r d0 x]
      have "x = r \<or> (\<exists>vs0. (nm, vs0) \<in> set d0 \<and> x \<in> set vs0)" by simp
      with True show ?thesis by blast
    next
      case False
      with v show ?thesis by auto
    qed
  qed
qed

lemma by_name_truthy:
  "(nm, refs) \<in> set (by_name rs) \<Longrightarrow> x \<in> set refs \<Longrightarrow>
     truthy (resource_hash x) \<and> resource_hash x \<noteq> Some ''CONFLICT''"
proof -
  assume a: "(nm, refs) \<in> set (by_name rs)" and x: "x \<in> set refs"
  from by_name_fold_values [OF a [unfolded by_name_def] x]
  show ?thesis by simp
qed

lemma detect_conflicts_subset: "set (detect_conflicts rs) \<subseteq> set (by_name rs)"
  by (auto simp: detect_conflicts_def)

lemma group_fold_keeps:
  assumes "(p, mds) \<in> set d0" and "m \<in> set mds"
  shows "\<exists>mds'. (p, mds') \<in> set (foldl (\<lambda>grouped ref.
              case resource_actual_path ref of
                None \<Rightarrow> grouped
              | Some p \<Rightarrow>
                  if resource_hash ref = Some ''CONFLICT'' then grouped
                  else dict_append p (md_file_path ref) grouped) d0 rs) \<and> m \<in> set mds'"
  using assms
proof (induction rs arbitrary: d0 mds)
  case Nil
  then show ?case by auto
next
  case (Cons r rs)
  show ?case
  proof (cases "resource_actual_path r")
    case None
    with Cons show ?thesis by simp
  next
    case (Some q)
    show ?thesis
    proof (cases "resource_hash r = Some ''CONFLICT''")
      case True
      with Some Cons show ?thesis by simp
    next
      case False
      from dict_append_keeps [OF Cons.prems, of q "md_file_path r"]
      obtain mds1 where "(p, mds1) \<in> set (dict_append q (md_file_path r) d0)" "m \<in> set mds1"
        by blast
      from Cons.IH [OF this] Some False show ?thesis by simp
    qed
  qed
qed

lemma group_fold_member:
  assumes "r \<in> set rs" and "resource_actual_path r = Some p" and "resource_hash r \<noteq> Some ''CONFLICT''"
  shows "\<exists>mds. (p, mds) \<in> set (foldl (\<lambda>grouped ref.
              case resource_actual_path ref of
                None \<Rightarrow> grouped
              | Some p \<Rightarrow>
                  if resource_hash ref = Some ''CONFLICT'' then grouped
                  else dict_append p (md_file_path ref) grouped) d0 rs) \<and> md_file_path r \<in> set mds"
  using assms
proof (induction rs arbitrary: d0)
  case Nil
  then show ?case by simp
next
  case (Cons a rs)
  show ?case
  proof (cases "a = r")
    case True
    from dict_append_adds [of p "md_file_path r" d0]
    obtain mds1 where "(p, mds1) \<in> set (dict_append p (md_file_path r) d0)" "md_file_path r \<in> set mds1"
      by blast
    from group_fold_keeps [OF this, of rs] True Cons.prems show ?thesis by simp
  next
    case False
    with Cons.prems have "r \<in> set rs" by simp
    from Cons.IH [OF this Cons.prems(2,3)] show ?thesis by simp
  qed
qed



section \<open>Facts about unique file names\<close>

lemma unique_from_first:
  "\<exists>N. c \<le> N \<and> unique_from fs t c = candidate t N \<and> \<not> exists fs (candidate t N) \<and>
       (\<forall>k. c \<le> k \<and> k < N \<longrightarrow> exists fs (candidate t k))"
proof (induction fs t c rule: unique_from.induct)
  case (1 fs t c)
  show ?case
  proof (cases "exists fs (candidate t c)")
    case False
    then have "unique_from fs t c = candidate t c"
      by (subst unique_from.simps) simp
    with False show ?thesis
      by (intro exI [of _ c]) auto
  next
    case True
    then have step: "unique_from fs t c = unique_from fs t (c + 1)"
      by (subst unique_from.simps) simp
    from "1.IH" True obtain N where N: "c + 1 \<le> N" "unique_from fs t (c + 1) = candidate t N"
      "\<not> exists fs (candidate t N)" "\<forall>k. c + 1 \<le> k \<and> k < N \<longrightarrow> exists fs (candidate t k)"
      by auto
    have "\<forall>k. c \<le> k \<and> k < N \<longrightarrow> exists fs (candidate t k)"
    proof (intro allI impI)
      fix k assume k: "c \<le> k \<and> k < N"
      show "exists fs (candidate t k)"
      proof (cases "k = c")
        case True
        with \<open>exists fs (candidate t c)\<close> show ?thesis by simp
      next
        case False
        with k N(4) show ?thesis by simp
      qed
    qed
    with N step show ?thesis
      by (intro exI [of _ N]) auto
  qed
qed

lemma stem_suffix: "stem t @ suffix_of t = name t"
  by (auto simp: stem_def suffix_of_def split: option.splits)

lemma parent_candidate: "parent (candidate t k) = parent t"
  by (simp add: candidate_eq parent_def)

lemma name_candidate: "name (candidate t k) = stem t @ ''_'' @ str_nat k @ suffix_of t"
  by (simp add: candidate_eq name_def)

section \<open>Facts about dry runs and statuses\<close>

lemma move_resource_file_dry:
  "\<exists>res. move_resource_file H False fs s t md nm = Inr (res, fs)"
  by (auto simp: move_resource_file_def Let_def)

lemma move_each_dry:
  "\<exists>stats'. move_each H False md rp yd stats fs links = Inr (stats', fs)"
proof (induction links arbitrary: stats)
  case Nil
  then show ?case by simp
next
  case (Cons l links)
  let ?nm = "link_file_name l"
  from move_resource_file_dry [of H fs "join rp ?nm" "join yd ?nm" md ?nm]
  obtain ok nf st where r: "move_resource_file H False fs (join rp ?nm) (join yd ?nm) md ?nm
      = Inr ((ok, nf, st), fs)"
    by (metis prod_cases3)
  show ?case
    using Cons.IH by (simp add: Let_def r)
qed

lemma run_moves_dry:
  "run_moves False stats fs moves = Inr (stats\<lparr>n_moved := n_moved stats + length moves\<rparr>, fs)"
proof (induction moves arbitrary: stats)
  case Nil
  then show ?case by simp
next
  case (Cons m moves)
  obtain s t mds where m: "m = (s, t, mds)" by (cases m)
  show ?case
    unfolding m by (simp add: move_resource_def Cons.IH)
qed

lemma optimize_dry:
  "optimize_resources H False fs base_path =
     (case planned H fs base_path of
        Inl e \<Rightarrow> Inl e
      | Inr (moves, stats) \<Rightarrow>
          Inr ((moves, stats\<lparr>n_moved := n_moved stats + length moves\<rparr>), fs))"
  by (simp add: optimize_resources_def run_moves_dry split: sum.splits prod.splits)

lemma optimize_same_queue:
  "optimize_resources H True fs base_path = Inr ((moves, stats'), fs') \<Longrightarrow>
     \<exists>stats. optimize_resources H False fs base_path = Inr ((moves, stats), fs)"
  by (auto simp: optimize_resources_def run_moves_dry split: sum.splits prod.splits)

lemma move_resource_file_same_decision:
  "move_resource_file H True fs s t md nm = Inr ((True, nf, st), fs') \<Longrightarrow>
     move_resource_file H False fs s t md nm = Inr ((True, nf, st), fs)"
  by (auto simp: move_resource_file_def Let_def split: if_splits sum.splits prod.splits)

lemma move_resource_file_status:
  "move_resource_file H execute fs s t md nm = Inr ((ok, nf, st), fs') \<Longrightarrow>
     st \<in> set [''moved'', ''renamed'', ''missing'', ''identical'', ''error''] \<and>
     ok = (st \<noteq> ''error'')"
  by (auto simp: move_resource_file_def Let_def split: if_splits sum.splits prod.splits)

section \<open>Facts about phase 3\<close>








section \<open>The patterns of the notes and what they stand for\<close>

lemma is_space_NL: "is_space NL"
  by (simp add: is_space_def NL_def)

lemma digit_not_space: "is_digit c \<Longrightarrow> \<not> is_space c"
  by (auto simp: is_digit_def is_space_def)

lemma find_close_sound: "find_close s = Some g \<Longrightarrow> \<exists>rest. s = g @ dashes @ rest"
proof (induction s arbitrary: g)
  case Nil
  then show ?case by simp
next
  case (Cons c cs)
  show ?case
  proof (cases "take 4 (c # cs) = dashes")
    case True
    with Cons.prems have "g = []" by (simp add: dashes_def)
    moreover have "c # cs = take 4 (c # cs) @ drop 4 (c # cs)" by (simp only: append_take_drop_id)
    ultimately show ?thesis using True by (metis append_Nil)
  next
    case False
    with Cons.prems obtain g' where g': "find_close cs = Some g'" "g = c # g'"
      by (auto simp: dashes_def)
    from Cons.IH [OF g'(1)] g'(2) show ?thesis by auto
  qed
qed

lemma take_append_long: "n \<le> length A \<Longrightarrow> take n (A @ B) = take n A"
  by simp

lemma find_close_complete:
  "\<not> sublist dashes (xs @ [NL, CHR ''-'', CHR ''-'']) \<Longrightarrow> find_close (xs @ dashes @ rest) = Some xs"
proof (induction xs)
  case Nil
  then show ?case by (simp add: dashes_def)
next
  case (Cons c xs)
  have "(c # xs) @ dashes @ rest = ((c # xs) @ [NL, CHR ''-'', CHR ''-'']) @ (CHR ''-'' # rest)"
    by (simp add: dashes_def)
  moreover have "4 \<le> length ((c # xs) @ [NL, CHR ''-'', CHR ''-''])" by simp
  ultimately have "take 4 ((c # xs) @ dashes @ rest) = take 4 ((c # xs) @ [NL, CHR ''-'', CHR ''-''])"
    by (simp only: take_append_long)
  moreover have "take 4 ((c # xs) @ [NL, CHR ''-'', CHR ''-'']) \<noteq> dashes"
  proof
    assume "take 4 ((c # xs) @ [NL, CHR ''-'', CHR ''-'']) = dashes"
    then have "prefix dashes ((c # xs) @ [NL, CHR ''-'', CHR ''-''])"
      by (metis take_is_prefix)
    with Cons.prems show False by (meson prefix_imp_sublist)
  qed
  ultimately have ne: "take 4 (c # (xs @ dashes @ rest)) \<noteq> [NL, CHR ''-'', CHR ''-'', CHR ''-'']"
    by (simp add: dashes_def)
  from Cons.prems have "\<not> sublist dashes (xs @ [NL, CHR ''-'', CHR ''-''])"
    by (simp add: sublist_Cons_right)
  from Cons.IH [OF this] ne show ?case
    by (simp del: take_Suc_Cons)
qed

lemma backtrack_sound:
  "frontmatter_backtrack rest k = Some g \<Longrightarrow> \<exists>j \<le> k. frontmatter_after rest j = Some g"
proof (induction k)
  case 0
  then show ?case by simp
next
  case (Suc k)
  show ?case
  proof (cases "frontmatter_after rest (Suc k)")
    case None
    with Suc.prems have "frontmatter_backtrack rest k = Some g" by simp
    from Suc.IH [OF this] show ?thesis by (meson le_Suc_eq)
  next
    case (Some g')
    with Suc.prems show ?thesis by auto
  qed
qed

lemma frontmatter_match_sound:
  assumes "frontmatter_match content = Some fm"
  shows "front_matter_block content fm"
proof -
  let ?rest = "drop 3 content"
  from assms have t: "take 3 content = ''---''"
    and b: "frontmatter_backtrack ?rest (length (takeWhile is_space ?rest)) = Some fm"
    by (auto simp: frontmatter_match_def split: if_splits)
  from backtrack_sound [OF b] obtain j where j: "j \<le> length (takeWhile is_space ?rest)"
    and a: "frontmatter_after ?rest j = Some fm" by blast
  from a have jl: "j < length ?rest" and nl: "?rest ! j = NL"
    and fc: "find_close (drop (Suc j) ?rest) = Some fm"
    by (auto simp: frontmatter_after_def split: if_splits)
  from find_close_sound [OF fc] obtain tail where tail: "drop (Suc j) ?rest = fm @ dashes @ tail"
    by blast
  have "?rest = take j ?rest @ ?rest ! j # drop (Suc j) ?rest"
    using jl by (rule id_take_nth_drop)
  with nl tail have r: "?rest = take j ?rest @ [NL] @ fm @ dashes @ tail" by simp
  have "content = take 3 content @ ?rest" by simp
  with t r have c: "content = ''---'' @ take j ?rest @ [NL] @ fm @ dashes @ tail" by metis
  have "take j ?rest = take j (takeWhile is_space ?rest)"
    using j by (metis append_eq_conv_conj length_takeWhile_le take_all_iff take_take min.absorb1 takeWhile_dropWhile_id take_append)
  then have "set (take j ?rest) \<subseteq> set (takeWhile is_space ?rest)"
    by (metis set_take_subset)
  then have "list_all is_space (take j ?rest)"
    by (auto simp: list_all_iff dest: set_takeWhileD)
  with c show ?thesis unfolding front_matter_block_def by blast
qed

lemma frontmatter_match_complete:
  assumes fm: "fm \<noteq> []" and ns: "\<not> is_space (hd fm)"
    and nd: "\<not> sublist dashes (fm @ [NL, CHR ''-'', CHR ''-''])"
  shows "frontmatter_match (''---'' @ [NL] @ fm @ dashes @ rest) = Some fm"
proof -
  let ?rest = "NL # fm @ dashes @ rest"
  from fm obtain c cs where c: "fm = c # cs" by (cases fm) auto
  with ns have nsc: "\<not> is_space c" by simp
  have tw: "takeWhile is_space (fm @ dashes @ rest) = []"
    using c nsc by simp
  have "c \<noteq> NL" using nsc is_space_NL by auto
  then have a1: "frontmatter_after ?rest 1 = None"
    using c by (simp add: frontmatter_after_def)
  have a0: "frontmatter_after ?rest 0 = Some fm"
    using find_close_complete [OF nd, of rest] by (simp add: frontmatter_after_def)
  have "frontmatter_backtrack ?rest (Suc 0) = Some fm"
    using a0 a1 by simp
  then show ?thesis
    by (simp add: frontmatter_match_def tw is_space_NL)
qed


lemma length4E: "length xs = 4 \<Longrightarrow> \<exists>a b c d. xs = [a, b, c, d]"
  by (auto simp: numeral_eq_Suc length_Suc_conv)

lemma length2E: "length xs = 2 \<Longrightarrow> \<exists>a b. xs = [a, b]"
  by (auto simp: numeral_eq_Suc length_Suc_conv)

lemma length10E: "length xs = 10 \<Longrightarrow> \<exists>a b c d e f g h i j. xs = [a, b, c, d, e, f, g, h, i, j]"
  by (auto simp: numeral_eq_Suc length_Suc_conv)

lemma length9E: "length xs = 9 \<Longrightarrow> \<exists>a b c d e f g h i. xs = [a, b, c, d, e, f, g, h, i]"
  by (auto simp: numeral_eq_Suc length_Suc_conv)

lemma created_field_imp_created_at:
  assumes "created_field s y"
  shows "created_at s = Some y"
proof -
  from assms obtain sp yyyy mm dd tail where
    s: "s = ''Created at:'' @ sp @ yyyy @ ''-'' @ mm @ ''-'' @ dd @ tail"
    and sp: "list_all is_space sp"
    and ly: "length yyyy = 4" and dy: "list_all is_digit yyyy"
    and lm: "length mm = 2" and dm: "list_all is_digit mm"
    and ld: "length dd = 2" and dd: "list_all is_digit dd"
    and y: "y = int_of_digits yyyy"
    unfolding created_field_def by blast
  from length4E [OF ly] obtain a b c d where yy: "yyyy = [a, b, c, d]" by blast
  from length2E [OF lm] obtain e f where mm: "mm = [e, f]" by blast
  from length2E [OF ld] obtain g h where ddd: "dd = [g, h]" by blast
  let ?r = "[a, b, c, d] @ ''-'' @ [e, f] @ ''-'' @ [g, h] @ tail"
  from dy yy have "\<not> is_space a" by (simp add: digit_not_space)
  then have "dropWhile is_space (sp @ ?r) = ?r"
    using sp by (simp add: dropWhile_append list_all_iff)
  moreover have "drop 11 s = sp @ ?r" "take 11 s = ''Created at:''"
    unfolding s yy mm ddd by simp_all
  ultimately show ?thesis
    using dy dm dd unfolding created_at_def y yy mm ddd by (simp add: Let_def)
qed

lemma created_at_imp_created_field:
  assumes "created_at s = Some y"
  shows "created_field s y"
proof -
  let ?r = "dropWhile is_space (drop 11 s)"
  let ?sp = "takeWhile is_space (drop 11 s)"
  from assms have t: "take 11 s = ''Created at:''"
    and l: "10 \<le> length ?r"
    and c: "list_all is_digit (take 4 ?r)" "?r ! 4 = CHR ''-''"
      "list_all is_digit (take 2 (drop 5 ?r))" "?r ! 7 = CHR ''-''"
      "list_all is_digit (take 2 (drop 8 ?r))"
    and y: "y = int_of_digits (take 4 ?r)"
    unfolding created_at_def by (auto simp: Let_def split: if_splits)
  from l have "length (take 10 ?r) = 10" by simp
  from length10E [OF this] obtain a b c' d e f g h i j where
    "take 10 ?r = [a, b, c', d, e, f, g, h, i, j]" by blast
  then obtain tail where r: "?r = [a, b, c', d, e, f, g, h, i, j] @ tail"
    by (metis append_take_drop_id)
  have s: "s = ''Created at:'' @ ?sp @ ?r"
    using t by (metis append_take_drop_id takeWhile_dropWhile_id)
  have eh: "e = CHR ''-''" "h = CHR ''-''"
    using c(2,4) unfolding r by simp_all
  have dg: "list_all is_digit [a, b, c', d]" "list_all is_digit [f, g]" "list_all is_digit [i, j]"
    "y = int_of_digits [a, b, c', d]"
    using c(1,3,5) y unfolding r by simp_all
  have sp: "list_all is_space ?sp"
    by (auto simp: list_all_iff dest: set_takeWhileD)
  have "s = ''Created at:'' @ ?sp @ [a, b, c', d] @ ''-'' @ [f, g] @ ''-'' @ [i, j] @ tail"
    by (subst s, subst r) (simp add: eh)
  with dg sp show ?thesis
    unfolding created_field_def
    by (intro exI [of _ ?sp] exI [of _ "[a, b, c', d]"] exI [of _ "[f, g]"] exI [of _ "[i, j]"]
        exI [of _ tail]) simp
qed

lemma created_at_iff: "created_at s = Some y \<longleftrightarrow> created_field s y"
  using created_field_imp_created_at created_at_imp_created_field by blast

lemma created_search_sound:
  "created_search bol fm = Some y \<Longrightarrow>
     \<exists>before s. fm = before @ s \<and> (if before = [] then bol else last before = NL) \<and>
        created_at s = Some y"
proof (induction fm arbitrary: bol)
  case Nil
  then show ?case by simp
next
  case (Cons c cs)
  show ?case
  proof (cases "bol \<and> created_at (c # cs) = Some y")
    case True
    then show ?thesis by (intro exI [of _ "[]"] exI [of _ "c # cs"]) simp
  next
    case False
    with Cons.prems have "created_search (c = NL) cs = Some y"
      by (auto split: if_splits option.splits)
    from Cons.IH [OF this] obtain before s where
      b: "cs = before @ s" "if before = [] then c = NL else last before = NL"
      "created_at s = Some y" by blast
    then show ?thesis
      by (intro exI [of _ "c # before"] exI [of _ s]) (auto split: if_splits)
  qed
qed

lemma created_search_complete:
  "created_at s = Some y \<Longrightarrow> (if before = [] then bol else last before = NL) \<Longrightarrow>
     \<exists>y'. created_search bol (before @ s) = Some y'"
proof (induction before arbitrary: bol)
  case Nil
  from Nil(1) have "s \<noteq> []" by (auto simp: created_at_def split: if_splits)
  then obtain c cs where "s = c # cs" by (cases s) auto
  with Nil show ?case by simp
next
  case (Cons b before)
  have "if before = [] then b = NL else last before = NL"
    using Cons.prems(2) by (auto split: if_splits)
  from Cons.IH [OF Cons.prems(1) this] obtain y' where
    "created_search (b = NL) (before @ s) = Some y'" by blast
  then show ?case by (auto split: option.splits)
qed

lemma filename_year_iff:
  "extract_year_from_filename p = Some y \<longleftrightarrow>
     (\<exists>m d. dated_filename (name p) y m d \<and> 1900 \<le> y \<and> y \<le> 2100 \<and>
        1 \<le> m \<and> m \<le> 12 \<and> 1 \<le> d \<and> d \<le> 31)"
proof
  assume a: "extract_year_from_filename p = Some y"
  then have l: "9 \<le> length (name p)" and dg: "list_all is_digit (take 8 (name p))"
    and u: "name p ! 8 = CHR ''_''"
    by (auto simp: extract_year_from_filename_def Let_def split: if_splits)
  from l have "length (take 9 (name p)) = 9" by simp
  from length9E [OF this] obtain a b c d e f g h i where
    "take 9 (name p) = [a, b, c, d, e, f, g, h, i]" by blast
  then obtain tail where fn: "name p = [a, b, c, d, e, f, g, h, i] @ tail"
    by (metis append_take_drop_id)
  have i: "i = CHR ''_''" using u unfolding fn by simp
  have dg': "list_all is_digit [a, b, c, d, e, f, g, h]" using dg unfolding fn by simp
  from a have r: "y = int_of_digits [a, b, c, d] \<and> 1900 \<le> y \<and> y \<le> 2100 \<and>
      1 \<le> int_of_digits [e, f] \<and> int_of_digits [e, f] \<le> 12 \<and>
      1 \<le> int_of_digits [g, h] \<and> int_of_digits [g, h] \<le> 31"
    unfolding extract_year_from_filename_def Let_def fn by (auto split: if_splits)
  have "dated_filename (name p) y (int_of_digits [e, f]) (int_of_digits [g, h])"
    unfolding dated_filename_def
    using i dg' r
    by (intro exI [of _ "[a, b, c, d]"] exI [of _ "[e, f]"] exI [of _ "[g, h]"]
        exI [of _ tail]) (simp add: fn)
  with r show "\<exists>m d. dated_filename (name p) y m d \<and> 1900 \<le> y \<and> y \<le> 2100 \<and>
        1 \<le> m \<and> m \<le> 12 \<and> 1 \<le> d \<and> d \<le> 31"
    by blast
next
  assume "\<exists>m d. dated_filename (name p) y m d \<and> 1900 \<le> y \<and> y \<le> 2100 \<and>
        1 \<le> m \<and> m \<le> 12 \<and> 1 \<le> d \<and> d \<le> 31"
  then obtain m d yyyy mm dd tail where
    fn: "name p = yyyy @ mm @ dd @ ''_'' @ tail"
    and ly: "length yyyy = 4" and dy: "list_all is_digit yyyy"
    and lm: "length mm = 2" and dm: "list_all is_digit mm"
    and ld: "length dd = 2" and ddg: "list_all is_digit dd"
    and v: "y = int_of_digits yyyy" "m = int_of_digits mm" "d = int_of_digits dd"
    and rg: "1900 \<le> y" "y \<le> 2100" "1 \<le> m" "m \<le> 12" "1 \<le> d" "d \<le> 31"
    unfolding dated_filename_def by blast
  from length4E [OF ly] obtain a b c e where yy: "yyyy = [a, b, c, e]" by blast
  from length2E [OF lm] obtain f g where mm: "mm = [f, g]" by blast
  from length2E [OF ld] obtain h i where ddd: "dd = [h, i]" by blast
  show "extract_year_from_filename p = Some y"
    using dy dm ddg v rg unfolding extract_year_from_filename_def Let_def fn yy mm ddd
    by simp
qed

lemma has_created_field_iff:
  "has_created_field fm y \<longleftrightarrow>
     (\<exists>before s. fm = before @ s \<and> (before = [] \<or> last before = NL) \<and> created_at s = Some y)"
  by (simp add: has_created_field_def created_at_iff)

lemma search_imp_field: "created_search True fm = Some y \<Longrightarrow> has_created_field fm y"
proof -
  assume "created_search True fm = Some y"
  from created_search_sound [OF this] obtain before s where
    "fm = before @ s" "if before = [] then True else last before = NL" "created_at s = Some y"
    by blast
  then show ?thesis
    unfolding has_created_field_iff
    by (intro exI [of _ before] exI [of _ s]) (auto split: if_splits)
qed

lemma field_imp_search: "has_created_field fm y \<Longrightarrow> \<exists>y'. created_search True fm = Some y'"
proof -
  assume "has_created_field fm y"
  then obtain before s where b: "fm = before @ s" "before = [] \<or> last before = NL"
    "created_at s = Some y"
    unfolding has_created_field_iff by blast
  from b(2) have "if before = [] then True else last before = NL" by auto
  from created_search_complete [OF b(3) this] b(1) show ?thesis by simp
qed


lemma backtrack_max:
  "frontmatter_backtrack rest k = Some g \<Longrightarrow>
     \<exists>j \<le> k. frontmatter_after rest j = Some g \<and>
       (\<forall>i. j < i \<and> i \<le> k \<longrightarrow> frontmatter_after rest i = None)"
proof (induction k)
  case 0
  then show ?case by simp
next
  case (Suc k)
  show ?case
  proof (cases "frontmatter_after rest (Suc k)")
    case None
    with Suc.prems have "frontmatter_backtrack rest k = Some g" by simp
    from Suc.IH [OF this] obtain j where j: "j \<le> k" "frontmatter_after rest j = Some g"
      "\<forall>i. j < i \<and> i \<le> k \<longrightarrow> frontmatter_after rest i = None" by blast
    have "\<forall>i. j < i \<and> i \<le> Suc k \<longrightarrow> frontmatter_after rest i = None"
      using j(3) None by (auto simp: le_Suc_eq)
    with j(1,2) show ?thesis by (intro exI [of _ j]) simp
  next
    case (Some g')
    with Suc.prems have "g' = g" by simp
    with Some show ?thesis by (intro exI [of _ "Suc k"]) auto
  qed
qed

lemma backtrack_some:
  "j \<le> k \<Longrightarrow> frontmatter_after rest j = Some g \<Longrightarrow> \<exists>g'. frontmatter_backtrack rest k = Some g'"
proof (induction k)
  case 0
  then show ?case by simp
next
  case (Suc k)
  show ?case
  proof (cases "frontmatter_after rest (Suc k)")
    case None
    with Suc.prems have "j \<le> k" by (cases "j = Suc k") auto
    from Suc.IH [OF this Suc.prems(2)] None show ?thesis by simp
  next
    case (Some g')
    then show ?thesis by simp
  qed
qed

lemma sublist_drop_append:
  "\<not> sublist d (xs @ t) \<Longrightarrow> \<not> sublist d (drop n xs @ t)"
proof
  assume a: "\<not> sublist d (xs @ t)" and b: "sublist d (drop n xs @ t)"
  from b obtain ps ss where "drop n xs @ t = ps @ d @ ss" unfolding sublist_def by blast
  then have "take n xs @ drop n xs @ t = take n xs @ ps @ d @ ss" by simp
  then have "xs @ t = (take n xs @ ps) @ d @ ss" by (simp only: append_assoc [symmetric] append_take_drop_id)
  then have "sublist d (xs @ t)" unfolding sublist_def by blast
  with a show False by simp
qed

lemma length_takeWhile_less:
  "x \<in> set xs \<Longrightarrow> \<not> P x \<Longrightarrow> length (takeWhile P xs) < length xs"
  by (induction xs) auto

text \<open>The group of the front-matter pattern on a text that has the shape of a block:
  the block, less leading lines of white space.\<close>

lemma frontmatter_match_block:
  assumes ws: "list_all is_space ws"
    and ns: "\<exists>c \<in> set fm. \<not> is_space c"
    and nd: "\<not> sublist dashes (fm @ [NL, CHR ''-'', CHR ''-''])"
  shows "\<exists>n. frontmatter_match (''---'' @ ws @ [NL] @ fm @ dashes @ rest) = Some (drop n fm) \<and>
           n \<le> length (takeWhile is_space fm) \<and> (n = 0 \<or> fm ! (n - 1) = NL)"
proof -
  let ?X = "fm @ dashes @ rest"
  let ?rest = "ws @ NL # ?X"
  let ?w1 = "takeWhile is_space fm"
  let ?k0 = "length ws + 1 + length ?w1"
  from ns obtain c where c: "c \<in> set fm" "\<not> is_space c" by blast
  then have tw1: "takeWhile is_space ?X = ?w1"
    by (rule takeWhile_append1)
  have "takeWhile is_space ?rest = ws @ NL # ?w1"
    using ws tw1 by (simp add: takeWhile_append2 list_all_iff is_space_NL)
  then have k0: "length (takeWhile is_space ?rest) = ?k0" by simp
  have w1l: "length ?w1 < length fm"
    using c by (rule length_takeWhile_less)
  have a0: "frontmatter_after ?rest (length ws) = Some fm"
    using find_close_complete [OF nd, of rest] by (simp add: frontmatter_after_def nth_append)
  from backtrack_some [OF _ a0, of ?k0] obtain g where
    g: "frontmatter_backtrack ?rest ?k0 = Some g" by auto
  from backtrack_max [OF g] obtain j where j: "j \<le> ?k0" "frontmatter_after ?rest j = Some g"
    and mx: "\<forall>i. j < i \<and> i \<le> ?k0 \<longrightarrow> frontmatter_after ?rest i = None" by blast
  have jw: "length ws \<le> j"
  proof (rule ccontr)
    assume "\<not> length ws \<le> j"
    then have "j < length ws \<and> length ws \<le> ?k0" by simp
    with mx have "frontmatter_after ?rest (length ws) = None" by blast
    with a0 show False by simp
  qed
  from j(2) have nl: "?rest ! j = NL" and fc: "find_close (drop (Suc j) ?rest) = Some g"
    by (auto simp: frontmatter_after_def split: if_splits)
  have m: "frontmatter_match (''---'' @ ws @ [NL] @ fm @ dashes @ rest) = Some g"
    using g k0 by (simp add: frontmatter_match_def)
  show ?thesis
  proof (cases "j = length ws")
    case True
    with a0 j(2) have "g = fm" by simp
    with m show ?thesis by (intro exI [of _ 0]) simp
  next
    case False
    with jw have "j = length ws + 1 + (j - length ws - 1)" by simp
    then obtain i where i: "j = length ws + 1 + i" ..
    with j(1) have il: "i \<le> length ?w1" by simp
    from i nl have xi: "?X ! i = NL" by (simp add: nth_append)
    have "i \<noteq> length ?w1"
    proof
      assume e: "i = length ?w1"
      have "\<not> is_space (fm ! length ?w1)" using w1l by (rule nth_length_takeWhile)
      moreover from xi e w1l have "fm ! length ?w1 = NL" by (simp add: nth_append)
      ultimately show False by (simp add: is_space_NL)
    qed
    with il have il': "i < length ?w1" by simp
    with w1l have ifm: "i < length fm" by simp
    with xi have fi: "fm ! i = NL" by (simp add: nth_append)
    from i ifm have "drop (Suc j) ?rest = drop (Suc i) fm @ dashes @ rest" by simp
    moreover have "\<not> sublist dashes (drop (Suc i) fm @ [NL, CHR ''-'', CHR ''-''])"
      using nd by (rule sublist_drop_append)
    from find_close_complete [OF this, of rest]
    have "find_close (drop (Suc i) fm @ dashes @ rest) = Some (drop (Suc i) fm)" .
    ultimately have "g = drop (Suc i) fm" using fc by simp
    with m il' fi show ?thesis by (intro exI [of _ "Suc i"]) simp
  qed
qed

lemma created_field_start: "created_field s y \<Longrightarrow> s \<noteq> [] \<and> \<not> is_space (hd s)"
  by (auto simp: created_field_def is_space_def)

lemma field_drop:
  assumes f: "has_created_field fm y" and n: "n \<le> length (takeWhile is_space fm)"
  shows "has_created_field (drop n fm) y"
proof -
  from f obtain before s where b: "fm = before @ s" "before = [] \<or> last before = NL"
    "created_field s y" unfolding has_created_field_def by blast
  from created_field_start [OF b(3)] have s: "s \<noteq> []" "\<not> is_space (hd s)" by auto
  have "length (takeWhile is_space fm) \<le> length before"
  proof (cases "\<forall>c \<in> set before. is_space c")
    case True
    then have "takeWhile is_space fm = before @ takeWhile is_space s"
      unfolding b(1) by (simp add: takeWhile_append2)
    moreover have "takeWhile is_space s = []" using s by (cases s) auto
    ultimately show ?thesis by simp
  next
    case False
    then obtain c where "c \<in> set before" "\<not> is_space c" by blast
    then have "takeWhile is_space (before @ s) = takeWhile is_space before"
      by (rule takeWhile_append1)
    then have "takeWhile is_space fm = takeWhile is_space before"
      unfolding b(1) .
    then show ?thesis by (simp add: length_takeWhile_le)
  qed
  with n have nb: "n \<le> length before" by simp
  then have d: "drop n fm = drop n before @ s" unfolding b(1) by simp
  have "drop n before = [] \<or> last (drop n before) = NL"
    using b(2) by (cases "drop n before = []") (auto simp: last_drop)
  with d b(3) show ?thesis unfolding has_created_field_def by blast
qed

lemma field_undrop:
  assumes f: "has_created_field (drop n fm) y" and n: "n = 0 \<or> fm ! (n - 1) = NL"
  shows "has_created_field fm y"
proof (cases "n = 0")
  case True
  with f show ?thesis by simp
next
  case False
  then have n0: "0 < n" by simp
  from f obtain b s where b: "drop n fm = b @ s" "b = [] \<or> last b = NL" "created_field s y"
    unfolding has_created_field_def by blast
  from created_field_start [OF b(3)] b(1) have "drop n fm \<noteq> []" by simp
  then have nl: "n \<le> length fm" by simp
  have "fm = take n fm @ drop n fm" by simp
  with b(1) have e: "fm = (take n fm @ b) @ s" by (metis append.assoc)
  have tn: "take n fm \<noteq> []" using n0 nl \<open>drop n fm \<noteq> []\<close> by auto
  moreover have "last (take n fm) = fm ! (n - 1)"
    using n0 nl tn by (simp add: last_conv_nth min_def)
  ultimately have "last (take n fm @ b) = NL"
    using b(2) n n0 by (cases "b = []") auto
  with e b(3) show ?thesis unfolding has_created_field_def by blast
qed

section \<open>Claims\<close>

text \<open>
  C4. \<open>find_lowest_common_ancestor\<close> returns the parent directory of the note for a
  one-element list; for a non-empty list of paths that have a common ancestor it returns a
  directory that is an ancestor of every path and below which every other common ancestor
  lies (the deepest one); for two notes in sibling directories under \<open>root/X\<close> it
  returns \<open>root/X\<close>; and it returns the configured base path for the empty list and for
  two or more paths without a common ancestor.
\<close>

theorem C4_find_lowest_common_ancestor:
  "find_lowest_common_ancestor base_path [p] = parent p \<and>
   (paths \<noteq> [] \<and> (\<forall>q \<in> set paths. is_ancestor a q) \<longrightarrow>
      (\<forall>q \<in> set paths. is_ancestor (find_lowest_common_ancestor base_path paths) q) \<and>
      (a = find_lowest_common_ancestor base_path paths \<or>
       is_ancestor a (find_lowest_common_ancestor base_path paths))) \<and>
   (A \<noteq> B \<longrightarrow> find_lowest_common_ancestor base_path
      [Path ab (root @ [X, A, n1]), Path ab (root @ [X, B, n2])] = Path ab (root @ [X])) \<and>
   find_lowest_common_ancestor base_path [] = base_path \<and>
   (2 \<le> length paths' \<and> \<not> (\<exists>c. \<forall>q \<in> set paths'. is_ancestor c q) \<longrightarrow>
      find_lowest_common_ancestor base_path paths' = base_path)"
proof (intro conjI impI)
  show "find_lowest_common_ancestor base_path [p] = parent p"
    by (simp add: find_lowest_common_ancestor_def)
  show "find_lowest_common_ancestor base_path [] = base_path"
    by (simp add: find_lowest_common_ancestor_def)
  show "find_lowest_common_ancestor base_path
      [Path ab (root @ [X, A, n1]), Path ab (root @ [X, B, n2])] = Path ab (root @ [X])"
    if "A \<noteq> B" using that by (rule lca_siblings)
  show "find_lowest_common_ancestor base_path paths' = base_path"
    if "2 \<le> length paths' \<and> \<not> (\<exists>c. \<forall>q \<in> set paths'. is_ancestor c q)"
    using that lca_none by blast
  assume h: "paths \<noteq> [] \<and> (\<forall>q \<in> set paths. is_ancestor a q)"
  then have ne: "paths \<noteq> []" and ex: "\<forall>q \<in> set paths. is_ancestor a q" by auto
  from lca_general [OF ne ex, of base_path]
  show "\<forall>q \<in> set paths. is_ancestor (find_lowest_common_ancestor base_path paths) q"
    and "a = find_lowest_common_ancestor base_path paths \<or>
       is_ancestor a (find_lowest_common_ancestor base_path paths)"
    by auto
qed

text \<open>
  The theorem at two notes \<open>vault/2023/a/n.md\<close> and \<open>vault/2023/b/m.md\<close> (common
  ancestor \<open>vault\<close>, deepest one \<open>vault/2023\<close>), and at an absolute and a relative
  path, which have no ancestor in common.
\<close>

theorem C4_find_lowest_common_ancestor_witness:
  "find_lowest_common_ancestor (Path False [''vault''])
     [Path False [''vault'', ''2023'', ''a'', ''n.md''],
      Path False [''vault'', ''2023'', ''b'', ''m.md'']] = Path False [''vault'', ''2023''] \<and>
   is_ancestor (Path False [''vault''])
     (find_lowest_common_ancestor (Path False [''vault''])
       [Path False [''vault'', ''2023'', ''a'', ''n.md''],
        Path False [''vault'', ''2023'', ''b'', ''m.md'']]) \<and>
   find_lowest_common_ancestor (Path False [''vault''])
     [Path True [''x'', ''n.md''], Path False [''y'', ''m.md'']] = Path False [''vault'']"
proof -
  let ?b = "Path False [''vault'']"
  let ?ps = "[Path False [''vault'', ''2023'', ''a'', ''n.md''],
      Path False [''vault'', ''2023'', ''b'', ''m.md'']]"
  let ?qs = "[Path True [''x'', ''n.md''], Path False [''y'', ''m.md'']]"
  note t = C4_find_lowest_common_ancestor [of ?b _ ?ps ?b "''a''" "''b''" False
      "[''vault'']" "''2023''" "''n.md''" "''m.md''" ?qs]
  have h1: "?ps \<noteq> [] \<and> (\<forall>q \<in> set ?ps. is_ancestor ?b q)"
    by (simp add: is_ancestor_iff strict_prefix_def)
  have h2: "''a'' \<noteq> ''b''" by simp
  have h3: "2 \<le> length ?qs \<and> \<not> (\<exists>c. \<forall>q \<in> set ?qs. is_ancestor c q)"
    by (auto simp: is_ancestor_iff)
  from t h2 have c1: "find_lowest_common_ancestor ?b ?ps = Path False [''vault'', ''2023'']"
    by simp
  from t h1 have "?b = find_lowest_common_ancestor ?b ?ps \<or>
      is_ancestor ?b (find_lowest_common_ancestor ?b ?ps)" by blast
  with c1 have c2: "is_ancestor ?b (find_lowest_common_ancestor ?b ?ps)" by auto
  from t h3 have c3: "find_lowest_common_ancestor ?b ?qs = ?b" by blast
  from c1 c2 c3 show ?thesis by blast
qed

text \<open>
  C10. A reference with a resolved path and no digest is in none of the lists that
  \<open>detect_conflicts\<close> returns, and \<open>group_by_resource\<close> has a group for its path that
  holds its note. Phase 3 queues a move for that group like for any other: when the path
  is no conflict path and differs from its optimal location (and both lie below the base
  path), the step of the loop appends the move.
\<close>

theorem C10_unhashed_reference_grouped:
  "r \<in> set references \<and> resource_actual_path r = Some p \<and> resource_hash r = None \<longrightarrow>
     (\<forall>(rname, refs) \<in> set (detect_conflicts references). r \<notin> set refs) \<and>
     (\<exists>md_files. (p, md_files) \<in> set (group_by_resource references) \<and>
        md_file_path r \<in> set md_files \<and>
        (p \<notin> set cpaths \<and> p \<noteq> optimal_location base_path p md_files \<and>
         relative_to p base_path \<noteq> None \<and>
         relative_to (optimal_location base_path p md_files) base_path \<noteq> None \<longrightarrow>
           plan_step base_path cpaths (moves, stats) (p, md_files) =
             Inr (moves @ [(p, optimal_location base_path p md_files, md_files)], stats)))"
proof (intro impI conjI)
  assume h: "r \<in> set references \<and> resource_actual_path r = Some p \<and> resource_hash r = None"
  show "\<forall>(rname, refs) \<in> set (detect_conflicts references). r \<notin> set refs"
  proof (clarify)
    fix rname refs
    assume "(rname, refs) \<in> set (detect_conflicts references)" and "r \<in> set refs"
    then have "(rname, refs) \<in> set (by_name references)" and "r \<in> set refs"
      using detect_conflicts_subset [of references] by auto
    then have "truthy (resource_hash r)"
      by (simp add: by_name_truthy)
    with h show False by (simp add: truthy_def)
  qed
  from h have "\<exists>md_files. (p, md_files) \<in> set (group_by_resource references) \<and>
        md_file_path r \<in> set md_files"
    unfolding group_by_resource_def by (intro group_fold_member) auto
  then obtain md_files where g: "(p, md_files) \<in> set (group_by_resource references)"
    "md_file_path r \<in> set md_files" by blast
  have "plan_step base_path cpaths (moves, stats) (p, md_files) =
      Inr (moves @ [(p, optimal_location base_path p md_files, md_files)], stats)"
    if "p \<notin> set cpaths \<and> p \<noteq> optimal_location base_path p md_files \<and>
         relative_to p base_path \<noteq> None \<and>
         relative_to (optimal_location base_path p md_files) base_path \<noteq> None"
    using that by (auto simp: plan_step_def)
  with g show "\<exists>md_files. (p, md_files) \<in> set (group_by_resource references) \<and>
        md_file_path r \<in> set md_files \<and>
        (p \<notin> set cpaths \<and> p \<noteq> optimal_location base_path p md_files \<and>
         relative_to p base_path \<noteq> None \<and>
         relative_to (optimal_location base_path p md_files) base_path \<noteq> None \<longrightarrow>
           plan_step base_path cpaths (moves, stats) (p, md_files) =
             Inr (moves @ [(p, optimal_location base_path p md_files, md_files)], stats))"
    by blast
qed

text \<open>
  In the small vault the resource \<open>a.png\<close> has no digest. Its reference from
  \<open>n.md\<close> is in no conflict list, its group holds the note, and phase 3 queues its move
  to \<open>vault/2023/_resources\<close>.
\<close>

theorem C10_unhashed_reference_grouped_witness:
  "build_reference_array id example_fs vault = Inr
     [\<lparr>md_file_path = Path False [''vault'', ''2023'', ''n.md''], resource_name = ''a.png'',
       resource_actual_path = Some (Path False [''vault'', ''_resources'', ''a.png'']),
       resource_hash = None\<rparr>,
      \<lparr>md_file_path = Path False [''vault'', ''2023'', ''n.md''], resource_name = ''b.png'',
       resource_actual_path = Some (Path False [''vault'', ''2023'', ''_resources'', ''b.png'']),
       resource_hash = Some ''BBB''\<rparr>,
      \<lparr>md_file_path = Path False [''vault'', ''2023'', ''m.md''], resource_name = ''a.png'',
       resource_actual_path = Some (Path False [''vault'', ''_resources'', ''a.png'']),
       resource_hash = None\<rparr>] \<and>
   (\<exists>md_files.
      (Path False [''vault'', ''_resources'', ''a.png''], md_files) \<in> set (group_by_resource
        [\<lparr>md_file_path = Path False [''vault'', ''2023'', ''n.md''], resource_name = ''a.png'',
          resource_actual_path = Some (Path False [''vault'', ''_resources'', ''a.png'']),
          resource_hash = None\<rparr>,
         \<lparr>md_file_path = Path False [''vault'', ''2023'', ''n.md''], resource_name = ''b.png'',
          resource_actual_path = Some (Path False [''vault'', ''2023'', ''_resources'', ''b.png'']),
          resource_hash = Some ''BBB''\<rparr>,
         \<lparr>md_file_path = Path False [''vault'', ''2023'', ''m.md''], resource_name = ''a.png'',
          resource_actual_path = Some (Path False [''vault'', ''_resources'', ''a.png'']),
          resource_hash = None\<rparr>]) \<and>
      Path False [''vault'', ''2023'', ''n.md''] \<in> set md_files) \<and>
   planned id example_fs vault = Inr
     ([(Path False [''vault'', ''_resources'', ''a.png''],
        Path False [''vault'', ''2023'', ''_resources'', ''a.png''],
        [Path False [''vault'', ''2023'', ''n.md''], Path False [''vault'', ''2023'', ''m.md'']])],
      \<lparr>n_moved = 0, skipped_conflict = 0, skipped_optimal = 1, n_errors = 0\<rparr>)"
proof -
  let ?r = "\<lparr>md_file_path = Path False [''vault'', ''2023'', ''n.md''], resource_name = ''a.png'',
       resource_actual_path = Some (Path False [''vault'', ''_resources'', ''a.png'']),
       resource_hash = None\<rparr>"
  let ?refs = "[?r,
      \<lparr>md_file_path = Path False [''vault'', ''2023'', ''n.md''], resource_name = ''b.png'',
       resource_actual_path = Some (Path False [''vault'', ''2023'', ''_resources'', ''b.png'']),
       resource_hash = Some ''BBB''\<rparr>,
      \<lparr>md_file_path = Path False [''vault'', ''2023'', ''m.md''], resource_name = ''a.png'',
       resource_actual_path = Some (Path False [''vault'', ''_resources'', ''a.png'']),
       resource_hash = None\<rparr>]"
  have b: "build_reference_array id example_fs vault = Inr ?refs"
    by code_simp
  have h: "?r \<in> set ?refs \<and>
      resource_actual_path ?r = Some (Path False [''vault'', ''_resources'', ''a.png'']) \<and>
      resource_hash ?r = None"
    by simp
  from C10_unhashed_reference_grouped [of ?r ?refs "Path False [''vault'', ''_resources'', ''a.png'']"] h
  have g: "\<exists>md_files.
      (Path False [''vault'', ''_resources'', ''a.png''], md_files) \<in> set (group_by_resource ?refs) \<and>
      md_file_path ?r \<in> set md_files"
    by blast
  have p: "planned id example_fs vault = Inr
     ([(Path False [''vault'', ''_resources'', ''a.png''],
        Path False [''vault'', ''2023'', ''_resources'', ''a.png''],
        [Path False [''vault'', ''2023'', ''n.md''], Path False [''vault'', ''2023'', ''m.md'']])],
      \<lparr>n_moved = 0, skipped_conflict = 0, skipped_optimal = 1, n_errors = 0\<rparr>)"
    by code_simp
  from b g p show ?thesis by simp
qed

text \<open>
  C3. Two candidates of which the first cannot be read and the second has the digest
  \<open>abc\<close>: every digest that was computed is equal, and the reference keeps the first path
  with no digest at all (\<^verbatim>\<open>hashes[0]\<close>), not the shared one. When no candidate can be
  read, the reference is flagged as a conflict although no two digests differ.
\<close>

theorem C3_first_candidate_unreadable:
  "resolve_reference (Path False [''vault'', ''n.md'']) ''photo.png''
     [Path False [''vault'', ''a'', ''photo.png''], Path False [''vault'', ''b'', ''photo.png'']]
     (\<lambda>p. if p = Path False [''vault'', ''a'', ''photo.png''] then None else Some ''abc'') =
   \<lparr>md_file_path = Path False [''vault'', ''n.md''], resource_name = ''photo.png'',
    resource_actual_path = Some (Path False [''vault'', ''a'', ''photo.png'']),
    resource_hash = None\<rparr> \<and>
   resolve_reference (Path False [''vault'', ''n.md'']) ''photo.png''
     [Path False [''vault'', ''a'', ''photo.png''], Path False [''vault'', ''b'', ''photo.png'']]
     (\<lambda>p. None) =
   \<lparr>md_file_path = Path False [''vault'', ''n.md''], resource_name = ''photo.png'',
    resource_actual_path = Some (Path False [''vault'', ''a'', ''photo.png'']),
    resource_hash = Some ''CONFLICT''\<rparr>"
  by (simp add: resolve_reference_def)

text \<open>
  C6. \<open>get_unique_filename\<close> returns the target path when nothing exists there.
  Otherwise it returns the candidate of some counter \<open>N\<close> from 1 on that does not
  exist, while the candidates of all smaller counters exist; the candidate lies in the
  directory of the target and is named by the stem, an underscore, the decimal counter and
  the suffix, where stem and suffix together are the name of the target.
\<close>

theorem C6_get_unique_filename:
  "(\<not> exists fs target_path \<longrightarrow> get_unique_filename fs target_path = target_path) \<and>
   (exists fs target_path \<longrightarrow>
      (\<exists>N. 1 \<le> N \<and> get_unique_filename fs target_path = candidate target_path N \<and>
           \<not> exists fs (candidate target_path N) \<and>
           (\<forall>k. 1 \<le> k \<and> k < N \<longrightarrow> exists fs (candidate target_path k)) \<and>
           parent (candidate target_path N) = parent target_path \<and>
           name (candidate target_path N) =
             stem target_path @ ''_'' @ str_nat N @ suffix_of target_path \<and>
           stem target_path @ suffix_of target_path = name target_path))"
proof (intro conjI impI)
  assume "\<not> exists fs target_path"
  then show "get_unique_filename fs target_path = target_path"
    by (simp add: get_unique_filename_def)
next
  assume "exists fs target_path"
  then have g: "get_unique_filename fs target_path = unique_from fs target_path 1"
    by (simp add: get_unique_filename_def)
  from unique_from_first [of 1 fs target_path] obtain N where
    "1 \<le> N" "unique_from fs target_path 1 = candidate target_path N"
    "\<not> exists fs (candidate target_path N)"
    "\<forall>k. 1 \<le> k \<and> k < N \<longrightarrow> exists fs (candidate target_path k)"
    by blast
  with g show "\<exists>N. 1 \<le> N \<and> get_unique_filename fs target_path = candidate target_path N \<and>
           \<not> exists fs (candidate target_path N) \<and>
           (\<forall>k. 1 \<le> k \<and> k < N \<longrightarrow> exists fs (candidate target_path k)) \<and>
           parent (candidate target_path N) = parent target_path \<and>
           name (candidate target_path N) =
             stem target_path @ ''_'' @ str_nat N @ suffix_of target_path \<and>
           stem target_path @ suffix_of target_path = name target_path"
    by (intro exI [of _ N]) (simp add: parent_candidate name_candidate stem_suffix)
qed

text \<open>
  In a folder that holds \<open>photo.png\<close> and \<open>photo_1.png\<close> the target \<open>photo.png\<close>
  becomes \<open>photo_2.png\<close>, and the free target \<open>new.png\<close> stays as it is.
\<close>

theorem C6_get_unique_filename_witness:
  "get_unique_filename
     [(Path False [''r''], Dir True Listable),
      (Path False [''r'', ''photo.png''], File ''A'' True True False),
      (Path False [''r'', ''photo_1.png''], File ''B'' True True False)]
     (Path False [''r'', ''photo.png'']) = Path False [''r'', ''photo_2.png''] \<and>
   get_unique_filename
     [(Path False [''r''], Dir True Listable),
      (Path False [''r'', ''photo.png''], File ''A'' True True False),
      (Path False [''r'', ''photo_1.png''], File ''B'' True True False)]
     (Path False [''r'', ''new.png'']) = Path False [''r'', ''new.png'']"
proof -
  let ?fs = "[(Path False [''r''], Dir True Listable),
      (Path False [''r'', ''photo.png''], File ''A'' True True False),
      (Path False [''r'', ''photo_1.png''], File ''B'' True True False)]"
  let ?t = "Path False [''r'', ''photo.png'']"
  let ?u = "Path False [''r'', ''new.png'']"
  have e1: "exists ?fs ?t" by (simp add: exists_def)
  have e2: "\<not> exists ?fs ?u" by (simp add: exists_def)
  have c1: "exists ?fs (candidate ?t 1)" by code_simp
  have c2: "candidate ?t 2 = Path False [''r'', ''photo_2.png'']" by code_simp
  have c3: "\<not> exists ?fs (candidate ?t 2)" by code_simp
  from C6_get_unique_filename [of ?fs ?t] e1 obtain N where
    N: "1 \<le> N" "get_unique_filename ?fs ?t = candidate ?t N"
    "\<not> exists ?fs (candidate ?t N)" "\<forall>k. 1 \<le> k \<and> k < N \<longrightarrow> exists ?fs (candidate ?t k)"
    by blast
  have "N = 2"
  proof (rule ccontr)
    assume "N \<noteq> 2"
    then consider "N = 1" | "2 < N" using N(1) by linarith
    then show False
    proof cases
      case 1
      with N(3) c1 show False by simp
    next
      case 2
      with N(4) have "exists ?fs (candidate ?t 2)" by simp
      with c3 show False by simp
    qed
  qed
  with N(2) c2 have r1: "get_unique_filename ?fs ?t = Path False [''r'', ''photo_2.png'']" by simp
  from C6_get_unique_filename [of ?fs ?u] e2 have r2: "get_unique_filename ?fs ?u = ?u" by blast
  from r1 r2 show ?thesis by simp
qed

text \<open>
  C1. With \<open>execute = False\<close>, \<open>_move_resource\<close> and \<open>move_resource_file\<close> return
  the file system they were given, and so do the loop over the links of a note and the
  whole of \<open>optimize_resources\<close>, whose dry run reports the queue of phase 3 and counts
  every queued move. The queue is the one of the run with \<open>execute = True\<close> on the same
  file system, and where \<open>move_resource_file\<close> succeeds with \<open>execute = True\<close>, the dry
  run has reported the same status and the same new file name.
\<close>

theorem C1_dry_run_leaves_file_system:
  "move_resource False fs source target md_files = Inr (True, fs) \<and>
   (\<exists>res. move_resource_file H False fs source_resource target_resource md_file rname =
            Inr (res, fs)) \<and>
   (\<exists>stats. move_resources_for_markdown H False fs md_file links resources_path year_dir =
              Inr (stats, fs)) \<and>
   optimize_resources H False fs base_path =
     (case planned H fs base_path of
        Inl e \<Rightarrow> Inl e
      | Inr (queue, stats) \<Rightarrow>
          Inr ((queue, stats\<lparr>n_moved := n_moved stats + length queue\<rparr>), fs)) \<and>
   (optimize_resources H True fs base_path = Inr ((moves, stats'), fs') \<longrightarrow>
      (\<exists>stats. optimize_resources H False fs base_path = Inr ((moves, stats), fs))) \<and>
   (move_resource_file H True fs source_resource target_resource md_file rname =
      Inr ((True, new_filename, status), fs'') \<longrightarrow>
    move_resource_file H False fs source_resource target_resource md_file rname =
      Inr ((True, new_filename, status), fs))"
proof (intro conjI impI)
  show "move_resource False fs source target md_files = Inr (True, fs)"
    by (simp add: move_resource_def)
  show "\<exists>res. move_resource_file H False fs source_resource target_resource md_file rname =
            Inr (res, fs)"
    by (rule move_resource_file_dry)
  show "\<exists>stats. move_resources_for_markdown H False fs md_file links resources_path year_dir =
              Inr (stats, fs)"
    unfolding move_resources_for_markdown_def by (rule move_each_dry)
  show "optimize_resources H False fs base_path =
     (case planned H fs base_path of
        Inl e \<Rightarrow> Inl e
      | Inr (queue, stats) \<Rightarrow>
          Inr ((queue, stats\<lparr>n_moved := n_moved stats + length queue\<rparr>), fs))"
    by (rule optimize_dry)
  show "\<exists>stats. optimize_resources H False fs base_path = Inr ((moves, stats), fs)"
    if "optimize_resources H True fs base_path = Inr ((moves, stats'), fs')"
    using that by (rule optimize_same_queue)
  show "move_resource_file H False fs source_resource target_resource md_file rname =
      Inr ((True, new_filename, status), fs)"
    if "move_resource_file H True fs source_resource target_resource md_file rname =
      Inr ((True, new_filename, status), fs'')"
    using that by (rule move_resource_file_same_decision)
qed

text \<open>
  In the small vault the run with \<open>execute = True\<close> moves \<open>a.png\<close>; the dry run
  reports that move and leaves the vault as it is. A resource \<open>p.png\<close> whose target
  holds other content is renamed to \<open>p_1.png\<close>; the dry run reports that name.
\<close>

theorem C1_dry_run_leaves_file_system_witness:
  "(\<exists>stats. optimize_resources id False example_fs vault =
      Inr (([(Path False [''vault'', ''_resources'', ''a.png''],
              Path False [''vault'', ''2023'', ''_resources'', ''a.png''],
              [Path False [''vault'', ''2023'', ''n.md''],
               Path False [''vault'', ''2023'', ''m.md'']])], stats),
           example_fs)) \<and>
   move_resource_file id False
     [(Path False [''r''], Dir True Listable),
      (Path False [''r'', ''res''], Dir True Listable),
      (Path False [''r'', ''res'', ''p.png''], File ''A'' True True False),
      (Path False [''r'', ''2023''], Dir True Listable),
      (Path False [''r'', ''2023'', ''_resources''], Dir True Listable),
      (Path False [''r'', ''2023'', ''_resources'', ''p.png''], File ''B'' True True False),
      (Path False [''r'', ''2023'', ''n.md''], File ''![[_resources/p.png]]'' True True True)]
     (Path False [''r'', ''res'', ''p.png''])
     (Path False [''r'', ''2023'', ''_resources'', ''p.png''])
     (Path False [''r'', ''2023'', ''n.md'']) ''p.png'' =
   Inr ((True, Some ''p_1.png'', ''renamed''),
     [(Path False [''r''], Dir True Listable),
      (Path False [''r'', ''res''], Dir True Listable),
      (Path False [''r'', ''res'', ''p.png''], File ''A'' True True False),
      (Path False [''r'', ''2023''], Dir True Listable),
      (Path False [''r'', ''2023'', ''_resources''], Dir True Listable),
      (Path False [''r'', ''2023'', ''_resources'', ''p.png''], File ''B'' True True False),
      (Path False [''r'', ''2023'', ''n.md''], File ''![[_resources/p.png]]'' True True True)])"
proof -
  let ?queue = "[(Path False [''vault'', ''_resources'', ''a.png''],
              Path False [''vault'', ''2023'', ''_resources'', ''a.png''],
              [Path False [''vault'', ''2023'', ''n.md''],
               Path False [''vault'', ''2023'', ''m.md'']])]"
  let ?after = "[(Path False [''vault''], Dir True Listable),
       (Path False [''vault'', ''_resources''], Dir True Listable),
       (Path False [''vault'', ''2023''], Dir True Listable),
       (Path False [''vault'', ''2023'', ''_resources''], Dir True Listable),
       (Path False [''vault'', ''2023'', ''_resources'', ''b.png''], File ''BBB'' True True False),
       (Path False [''vault'', ''2023'', ''n.md''],
        File ''see ![[_resources/a.png]] and [[_resources/b.png|x]]'' True True True),
       (Path False [''vault'', ''2023'', ''m.md''],
        File ''![[_resources/a.png|pic]]'' True True True),
       (Path False [''vault'', ''2023'', ''_resources'', ''a.png''],
        File ''AAA'' False True False)]"
  let ?fs = "[(Path False [''r''], Dir True Listable),
      (Path False [''r'', ''res''], Dir True Listable),
      (Path False [''r'', ''res'', ''p.png''], File ''A'' True True False),
      (Path False [''r'', ''2023''], Dir True Listable),
      (Path False [''r'', ''2023'', ''_resources''], Dir True Listable),
      (Path False [''r'', ''2023'', ''_resources'', ''p.png''], File ''B'' True True False),
      (Path False [''r'', ''2023'', ''n.md''], File ''![[_resources/p.png]]'' True True True)]"
  let ?fs' = "[(Path False [''r''], Dir True Listable),
       (Path False [''r'', ''res''], Dir True Listable),
       (Path False [''r'', ''2023''], Dir True Listable),
       (Path False [''r'', ''2023'', ''_resources''], Dir True Listable),
       (Path False [''r'', ''2023'', ''_resources'', ''p.png''], File ''B'' True True False),
       (Path False [''r'', ''2023'', ''n.md''], File ''![[_resources/p_1.png]]'' True True True),
       (Path False [''r'', ''2023'', ''_resources'', ''p_1.png''], File ''A'' True True False)]"
  have e1: "optimize_resources id True example_fs vault =
      Inr ((?queue, \<lparr>n_moved = 1, skipped_conflict = 0, skipped_optimal = 1, n_errors = 0\<rparr>),
           ?after)"
    by code_simp
  have e2: "move_resource_file id True ?fs (Path False [''r'', ''res'', ''p.png''])
     (Path False [''r'', ''2023'', ''_resources'', ''p.png''])
     (Path False [''r'', ''2023'', ''n.md'']) ''p.png'' =
     Inr ((True, Some ''p_1.png'', ''renamed''), ?fs')"
    by code_simp
  have "\<exists>stats. optimize_resources id False example_fs vault = Inr ((?queue, stats), example_fs)"
    using e1 C1_dry_run_leaves_file_system [where fs = example_fs and H = id and
        base_path = vault and moves = ?queue and fs' = ?after]
    by blast
  moreover have "move_resource_file id False ?fs (Path False [''r'', ''res'', ''p.png''])
     (Path False [''r'', ''2023'', ''_resources'', ''p.png''])
     (Path False [''r'', ''2023'', ''n.md'']) ''p.png'' =
     Inr ((True, Some ''p_1.png'', ''renamed''), ?fs)"
    using e2 C1_dry_run_leaves_file_system [where fs = ?fs and H = id and
        source_resource = "Path False [''r'', ''res'', ''p.png'']" and
        target_resource = "Path False [''r'', ''2023'', ''_resources'', ''p.png'']" and
        md_file = "Path False [''r'', ''2023'', ''n.md'']" and rname = "''p.png''" and
        new_filename = "Some ''p_1.png''" and status = "''renamed''" and fs'' = ?fs']
    by blast
  ultimately show ?thesis by blast
qed

text \<open>
  C9. A resource \<open>1.png\<close> whose target holds other content, with \<open>execute = True\<close>:
  the new name is \<open>1_1.png\<close>, the file is renamed, and the replacement template
  \<^verbatim>\<open>\11_1.png\2\<close> that \<open>update_resource_link\<close> hands to \<^verbatim>\<open>re.sub\<close> names a group
  11 that the pattern does not have. The error is no \<^verbatim>\<open>OSError\<close>, so it leaves
  \<open>move_resource_file\<close>, which returns no status.
\<close>

theorem C9_template_error_leaves_move_resource_file:
  "move_resource_file id True
     [(Path False [''r''], Dir True Listable),
      (Path False [''r'', ''res''], Dir True Listable),
      (Path False [''r'', ''res'', ''1.png''], File ''A'' True True False),
      (Path False [''r'', ''2023''], Dir True Listable),
      (Path False [''r'', ''2023'', ''_resources''], Dir True Listable),
      (Path False [''r'', ''2023'', ''_resources'', ''1.png''], File ''B'' True True False),
      (Path False [''r'', ''2023'', ''n.md''], File ''![[_resources/1.png]]'' True True True)]
     (Path False [''r'', ''res'', ''1.png''])
     (Path False [''r'', ''2023'', ''_resources'', ''1.png''])
     (Path False [''r'', ''2023'', ''n.md'']) ''1.png'' = Inl ReError \<and>
   script_move_resource_file id
     [(Path False [''r''], Dir True Listable),
      (Path False [''r'', ''res''], Dir True Listable),
      (Path False [''r'', ''res'', ''1.png''], File ''A'' True True False),
      (Path False [''r'', ''2023''], Dir True Listable),
      (Path False [''r'', ''2023'', ''_resources''], Dir True Listable),
      (Path False [''r'', ''2023'', ''_resources'', ''1.png''], File ''B'' True True False),
      (Path False [''r'', ''2023'', ''n.md''], File ''![[_resources/1.png]]'' True True True)]
     (Path False [''r'', ''res'', ''1.png''])
     (Path False [''r'', ''2023'', ''_resources'', ''1.png''])
     (Path False [''r'', ''2023'', ''n.md'']) ''1.png'' True = Inl ReError"
  by code_simp





text \<open>
  C2. A note with a bare link and an embedded link to \<open>a.png\<close>: both are extracted,
  since the pattern of \<open>extract_resource_links\<close> makes the exclamation mark optional;
  \<open>update_resource_link\<close> asks for the exclamation mark, so after the rewriting of
  \<open>a.png\<close> to \<open>b.png\<close> the bare link still names \<open>a.png\<close> and the extracted
  sequence is not the old one with every \<open>a.png\<close> replaced. With the new name
  \<open>1.png\<close> the replacement template is \<^verbatim>\<open>\11.png\2\<close>, which \<^verbatim>\<open>re.sub\<close> refuses,
  and the note is not rewritten at all.
\<close>

theorem C2_bare_link_is_not_rewritten:
  "extract_resource_links
     [(Path False [''v''], Dir True Listable),
      (Path False [''v'', ''n.md''],
         File ''[[_resources/a.png]] and ![[_resources/a.png|x]]'' True True True)]
     (Path False [''v'', ''n.md'']) = [''_resources/a.png'', ''_resources/a.png''] \<and>
   update_resource_link
     [(Path False [''v''], Dir True Listable),
      (Path False [''v'', ''n.md''],
         File ''[[_resources/a.png]] and ![[_resources/a.png|x]]'' True True True)]
     (Path False [''v'', ''n.md'']) ''a.png'' ''b.png'' =
     Inr (True,
       [(Path False [''v''], Dir True Listable),
        (Path False [''v'', ''n.md''],
           File ''[[_resources/a.png]] and ![[_resources/b.png|x]]'' True True True)]) \<and>
   extract_resource_links
     [(Path False [''v''], Dir True Listable),
      (Path False [''v'', ''n.md''],
         File ''[[_resources/a.png]] and ![[_resources/b.png|x]]'' True True True)]
     (Path False [''v'', ''n.md'']) = [''_resources/a.png'', ''_resources/b.png''] \<and>
   update_resource_link
     [(Path False [''v''], Dir True Listable),
      (Path False [''v'', ''n.md''],
         File ''[[_resources/a.png]] and ![[_resources/a.png|x]]'' True True True)]
     (Path False [''v'', ''n.md'']) ''a.png'' ''1.png'' = Inl ReError"
  by code_simp

text \<open>
  C8. \<open>find_resource\<close> hands the name to \<^verbatim>\<open>rglob\<close>, which reads it as a pattern.
  In a directory that holds the files \<open>photo[1].png\<close> and \<open>photo1.png\<close> the search
  for \<open>photo[1].png\<close> returns \<open>photo1.png\<close>, a file of another name, and not the
  file of that name; the search for \<open>a?.png\<close> returns the file \<open>ab.png\<close> as well;
  and the search for a name with two stars in it ends with a \<^verbatim>\<open>ValueError\<close>, which
  the handler of \<open>find_resource\<close> does not catch.
\<close>

theorem C8_name_is_read_as_pattern:
  "find_resource
     [(Path False [''r''], Dir True Listable),
      (Path False [''r'', ''photo[1].png''], File ''A'' True True False),
      (Path False [''r'', ''photo1.png''], File ''B'' True True False)]
     ''photo[1].png'' (Path False [''r'']) = Inr [Path False [''r'', ''photo1.png'']] \<and>
   is_file
     [(Path False [''r''], Dir True Listable),
      (Path False [''r'', ''photo[1].png''], File ''A'' True True False),
      (Path False [''r'', ''photo1.png''], File ''B'' True True False)]
     (Path False [''r'', ''photo[1].png'']) \<and>
   name (Path False [''r'', ''photo[1].png'']) = ''photo[1].png'' \<and>
   name (Path False [''r'', ''photo1.png'']) \<noteq> ''photo[1].png'' \<and>
   find_resource
     [(Path False [''r''], Dir True Listable),
      (Path False [''r'', ''a?.png''], File ''A'' True True False),
      (Path False [''r'', ''ab.png''], File ''B'' True True False)]
     ''a?.png'' (Path False [''r'']) =
     Inr [Path False [''r'', ''a?.png''], Path False [''r'', ''ab.png'']] \<and>
   find_resource
     [(Path False [''r''], Dir True Listable),
      (Path False [''r'', ''a**b''], File ''A'' True True False)]
     ''a**b'' (Path False [''r'']) = Inl ValueError"
  by code_simp

text \<open>
  C7. \<open>extract_year_from_frontmatter\<close> on a note that can be read. (1) When the
  front-matter pattern matches and the date pattern is found in its group, the result is
  that year, whatever the file name; the group is a front-matter block of the note and
  the year is that of a \<^verbatim>\<open>Created at: YYYY-MM-DD\<close> field at the start of one of its
  lines. (2) Conversely, when the note starts with three dashes, white space and a
  newline, followed by a block \<open>fm'\<close> up to the first line that starts with three
  dashes, and the block has such a field, the result is the year of such a field of the
  block. (3) When the front-matter pattern does not match or no field
  is found in its group, the result is that of \<open>extract_year_from_filename\<close>, which
  (4) is the year \<open>yn\<close> exactly when the file name starts with eight digits and an
  underscore that read as the year \<open>yn\<close> from 1900 to 2100, a month from 1 to 12 and a
  day from 1 to 31, and is \<open>None\<close> otherwise. (5) A note that cannot be read has no
  year.
\<close>

theorem C7_extract_year:
  "(read_text fs p = Inr content \<and> frontmatter_match content = Some fm \<and>
    created_search True fm = Some y \<longrightarrow>
      extract_year_from_frontmatter fs p = Some y \<and>
      front_matter_block content fm \<and> has_created_field fm y) \<and>
   (read_text fs p = Inr (''---'' @ ws @ [NL] @ fm' @ dashes @ rest) \<and>
    list_all is_space ws \<and> \<not> sublist dashes (fm' @ [NL, CHR ''-'', CHR ''-'']) \<and>
    has_created_field fm' yb \<longrightarrow>
      (\<exists>y1. has_created_field fm' y1 \<and> extract_year_from_frontmatter fs p = Some y1)) \<and>
   (read_text fs p = Inr content \<and>
    (frontmatter_match content = None \<or>
     (\<exists>fm. frontmatter_match content = Some fm \<and> created_search True fm = None)) \<longrightarrow>
      extract_year_from_frontmatter fs p = extract_year_from_filename p) \<and>
   (extract_year_from_filename p = Some yn \<longleftrightarrow>
      (\<exists>m d. dated_filename (name p) yn m d \<and> 1900 \<le> yn \<and> yn \<le> 2100 \<and>
         1 \<le> m \<and> m \<le> 12 \<and> 1 \<le> d \<and> d \<le> 31)) \<and>
   (read_text fs p = Inl e \<longrightarrow> extract_year_from_frontmatter fs p = None)"
  (is "?C1 \<and> ?C2 \<and> ?C3 \<and> ?C4 \<and> ?C5")
proof -
  have c1: ?C1
  proof
    assume h: "read_text fs p = Inr content \<and> frontmatter_match content = Some fm \<and>
      created_search True fm = Some y"
    then have "extract_year_from_frontmatter fs p = Some y"
      by (simp add: extract_year_from_frontmatter_def)
    moreover from h have "front_matter_block content fm"
      by (simp add: frontmatter_match_sound)
    moreover from h have "has_created_field fm y"
      by (simp add: search_imp_field)
    ultimately show "extract_year_from_frontmatter fs p = Some y \<and>
      front_matter_block content fm \<and> has_created_field fm y"
      by simp
  qed
  have c2: ?C2
  proof
    assume h: "read_text fs p = Inr (''---'' @ ws @ [NL] @ fm' @ dashes @ rest) \<and>
      list_all is_space ws \<and> \<not> sublist dashes (fm' @ [NL, CHR ''-'', CHR ''-'']) \<and>
      has_created_field fm' yb"
    then have rd: "read_text fs p = Inr (''---'' @ ws @ [NL] @ fm' @ dashes @ rest)"
      and ws: "list_all is_space ws"
      and nd: "\<not> sublist dashes (fm' @ [NL, CHR ''-'', CHR ''-''])"
      and f: "has_created_field fm' yb" by simp_all
    from f obtain before s where b: "fm' = before @ s" "created_field s yb"
      unfolding has_created_field_def by blast
    from created_field_start [OF b(2)] have "hd s \<in> set fm'" "\<not> is_space (hd s)"
      unfolding b(1) by simp_all
    then have ns: "\<exists>c \<in> set fm'. \<not> is_space c" by blast
    from frontmatter_match_block [OF ws ns nd, of rest] obtain n where
      m: "frontmatter_match (''---'' @ ws @ [NL] @ fm' @ dashes @ rest) = Some (drop n fm')"
      and n: "n \<le> length (takeWhile is_space fm')" "n = 0 \<or> fm' ! (n - 1) = NL"
      by blast
    from field_drop [OF f n(1)] have "has_created_field (drop n fm') yb" .
    from field_imp_search [OF this] obtain y1 where
      y1: "created_search True (drop n fm') = Some y1" by blast
    then have "has_created_field (drop n fm') y1" by (rule search_imp_field)
    then have "has_created_field fm' y1" using n(2) by (rule field_undrop)
    moreover have "extract_year_from_frontmatter fs p = Some y1"
      unfolding extract_year_from_frontmatter_def using rd m y1 by simp
    ultimately show "\<exists>y1. has_created_field fm' y1 \<and> extract_year_from_frontmatter fs p = Some y1"
      by blast
  qed
  have c3: ?C3
    by (auto simp: extract_year_from_frontmatter_def)
  have c4: ?C4
    by (rule filename_year_iff)
  have c5: ?C5
    by (simp add: extract_year_from_frontmatter_def)
  from c1 c2 c3 c4 c5 show ?thesis by (intro conjI)
qed

text \<open>
  The theorem at the four notes of \<open>dated_fs\<close>: the year 2021 of the front matter
  although the file name holds the month 13; the year 2019 of the file name
  \<open>20190203_a.md\<close>; no year for \<open>20191303_a.md\<close>; and no year for the note that
  cannot be read.
\<close>

theorem C7_extract_year_witness:
  "read_text dated_fs (Path False [''v'', ''20231305_x.md'']) =
     Inr (''---'' @ '' '' @ [NL] @ ''Created at: 2021-05-06'' @ dashes @ [NL] @ ''body'') \<and>
   has_created_field ''Created at: 2021-05-06'' 2021 \<and>
   extract_year_from_frontmatter dated_fs (Path False [''v'', ''20231305_x.md'']) = Some 2021 \<and>
   extract_year_from_filename (Path False [''v'', ''20231305_x.md'']) = None \<and>
   frontmatter_match ''no front matter'' = None \<and>
   dated_filename ''20190203_a.md'' 2019 2 3 \<and>
   extract_year_from_frontmatter dated_fs (Path False [''v'', ''20190203_a.md'']) = Some 2019 \<and>
   extract_year_from_frontmatter dated_fs (Path False [''v'', ''20191303_a.md'']) = None \<and>
   read_text dated_fs (Path False [''v'', ''20200101_u.md'']) = Inl OSError \<and>
   extract_year_from_frontmatter dated_fs (Path False [''v'', ''20200101_u.md'']) = None"
proof -
  let ?n1 = "Path False [''v'', ''20231305_x.md'']"
  let ?n2 = "Path False [''v'', ''20190203_a.md'']"
  let ?n3 = "Path False [''v'', ''20191303_a.md'']"
  let ?n4 = "Path False [''v'', ''20200101_u.md'']"
  let ?fm = "''Created at: 2021-05-06''"
  let ?c1 = "''---'' @ '' '' @ [NL] @ ?fm @ dashes @ [NL] @ ''body''"
  note t1 = C7_extract_year [where fs = dated_fs and p = ?n1 and content = ?c1 and fm = ?fm
      and y = 2021 and ws = "'' ''" and fm' = ?fm and rest = "[NL] @ ''body''" and yb = 2021]
  note t2 = C7_extract_year [where fs = dated_fs and p = ?n2 and content = "''no front matter''"
      and yn = 2019]
  note t3 = C7_extract_year [where fs = dated_fs and p = ?n3 and content = "''no front matter''"]
  note t4 = C7_extract_year [where fs = dated_fs and p = ?n4 and e = OSError]
  have r1: "read_text dated_fs ?n1 = Inr ?c1" by code_simp
  have m1: "frontmatter_match ?c1 = Some ?fm" by code_simp
  have s1: "created_search True ?fm = Some 2021" by code_simp
  from t1 [THEN conjunct1] r1 m1 s1
  have a1: "extract_year_from_frontmatter dated_fs ?n1 = Some 2021 \<and>
      front_matter_block ?c1 ?fm \<and> has_created_field ?fm 2021" by blast
  then have f1: "has_created_field ?fm 2021" by blast
  have w1: "list_all is_space '' ''" by code_simp
  have d1: "\<not> sublist dashes (?fm @ [NL, CHR ''-'', CHR ''-''])" by code_simp
  from t1 [THEN conjunct2, THEN conjunct1] r1 w1 d1 f1
  have "\<exists>y1. has_created_field ?fm y1 \<and> extract_year_from_frontmatter dated_fs ?n1 = Some y1"
    by blast
  have e1: "extract_year_from_filename ?n1 = None" by code_simp
  have r2: "read_text dated_fs ?n2 = Inr ''no front matter''" by code_simp
  have m2: "frontmatter_match ''no front matter'' = None" by code_simp
  from t2 [THEN conjunct2, THEN conjunct2, THEN conjunct1] r2 m2
  have a2: "extract_year_from_frontmatter dated_fs ?n2 = extract_year_from_filename ?n2"
    by blast
  have nm: "name ?n2 = ''20190203_a.md''" by code_simp
  have df: "dated_filename ''20190203_a.md'' 2019 2 3"
    unfolding dated_filename_def
    by (intro exI [of _ "''2019''"] exI [of _ "''02''"] exI [of _ "''03''"] exI [of _ "''a.md''"])
       (simp add: is_digit_def int_of_digits_def digit_val_def)
  then have "\<exists>m d. dated_filename (name ?n2) 2019 m d \<and> (1900::nat) \<le> 2019 \<and> (2019::nat) \<le> 2100 \<and>
      1 \<le> m \<and> m \<le> 12 \<and> 1 \<le> d \<and> d \<le> 31"
    unfolding nm by (intro exI [of _ 2] exI [of _ 3]) simp
  with t2 [THEN conjunct2, THEN conjunct2, THEN conjunct2, THEN conjunct1]
  have "extract_year_from_filename ?n2 = Some 2019" by blast
  with a2 have b2: "extract_year_from_frontmatter dated_fs ?n2 = Some 2019" by simp
  have r3: "read_text dated_fs ?n3 = Inr ''no front matter''" by code_simp
  from t3 [THEN conjunct2, THEN conjunct2, THEN conjunct1] r3 m2
  have a3: "extract_year_from_frontmatter dated_fs ?n3 = extract_year_from_filename ?n3"
    by blast
  have "extract_year_from_filename ?n3 = None" by code_simp
  with a3 have b3: "extract_year_from_frontmatter dated_fs ?n3 = None" by simp
  have r4: "read_text dated_fs ?n4 = Inl OSError" by code_simp
  from t4 [THEN conjunct2, THEN conjunct2, THEN conjunct2, THEN conjunct2] r4
  have b4: "extract_year_from_frontmatter dated_fs ?n4 = None" by blast
  from r1 f1 a1 e1 m2 df b2 b3 r4 b4 show ?thesis by blast
qed
end
